theory Spec2Isabelle
  imports Complex_Main "HOL-Library.Word" "HOL-Library.Sublist" "HOL-Library.AList"
begin

unbundle bit_operations_syntax

section \<open>An assembler for the LC3 teaching processor (assembler.py)\<close>

text \<open>
  The embedding follows \<^verbatim>\<open>assembler.py\<close>. Python's unbounded integers are \<open>int\<close>; the
  memory \<^verbatim>\<open>array('H', [0] * (1 << 16))\<close> is a function from the 65536 indices to
  16-bit words; the dictionaries \<^verbatim>\<open>labels\<close> and \<^verbatim>\<open>label_location\<close> are a map and an
  association list in insertion order. Every exception the source can raise is a value
  of \<open>error\<close>, at the granularity of the Python exception class.

  Source text is modelled as 8-bit characters of which only the ASCII letters, digits and
  white space are classified as such; digit separators (underscores) inside integer
  literals are not accepted by the model of \<^verbatim>\<open>int\<close>. Console output is not part of the
  model, except where producing it can raise.
\<close>

subsection \<open>Errors\<close>

datatype error = ValueError | IndexError | OverflowError | NameError | KeyError

subsection \<open>Strings\<close>

definition isdigit :: "char \<Rightarrow> bool" where
  "isdigit c = (c \<in> set ''0123456789'')"

definition isalpha :: "char \<Rightarrow> bool" where
  "isalpha c = (c \<in> set ''ABCDEFGHIJKLMNOPQRSTUVWXYZabcdefghijklmnopqrstuvwxyz'')"

definition isspace :: "char \<Rightarrow> bool" where
  "isspace c = (of_char c \<in> {9, 10, 11, 12, 13, 28, 29, 30, 31, 32 :: nat})"

definition lower_char :: "char \<Rightarrow> char" where
  "lower_char c =
     (case map_of (zip ''ABCDEFGHIJKLMNOPQRSTUVWXYZ'' ''abcdefghijklmnopqrstuvwxyz'') c of
        Some l \<Rightarrow> l | None \<Rightarrow> c)"

definition lower :: "string \<Rightarrow> string" where
  "lower s = map lower_char s"

definition py_ord :: "char \<Rightarrow> int" where
  "py_ord c = of_char c"

text \<open>\<^verbatim>\<open>s.split(sep)\<close> for a one-character separator: never empty, keeps empty pieces.\<close>

fun split_on :: "char \<Rightarrow> string \<Rightarrow> string list" where
  "split_on sep [] = [[]]"
| "split_on sep (c # cs) =
     (if c = sep then [] # split_on sep cs
      else (case split_on sep cs of [] \<Rightarrow> [[c]] | x # xs \<Rightarrow> (c # x) # xs))"

text \<open>\<^verbatim>\<open>s.split()\<close>: the maximal runs of characters that are not white space.\<close>

fun split_ws :: "string \<Rightarrow> string \<Rightarrow> string list" where
  "split_ws cur [] = (if cur = [] then [] else [rev cur])"
| "split_ws cur (c # cs) =
     (if isspace c then (if cur = [] then split_ws [] cs else rev cur # split_ws [] cs)
      else split_ws (c # cur) cs)"

definition py_split :: "string \<Rightarrow> string list" where
  "py_split s = split_ws [] s"

text \<open>\<^verbatim>\<open>s.replace(',', ', ')\<close> and \<^verbatim>\<open>s.rstrip(',')\<close>.\<close>

definition replace_comma :: "string \<Rightarrow> string" where
  "replace_comma s = concat (map (\<lambda>c. if c = CHR '','' then '', '' else [c]) s)"

definition rstrip_comma :: "string \<Rightarrow> string" where
  "rstrip_comma s = rev (dropWhile (\<lambda>c. c = CHR '','') (rev s))"

subsection \<open>Python's \<^verbatim>\<open>int(s)\<close> and \<^verbatim>\<open>int(s, 0)\<close>\<close>

definition digit_val :: "char \<Rightarrow> nat option" where
  "digit_val c = map_of
     [(CHR ''0'', 0), (CHR ''1'', 1), (CHR ''2'', 2), (CHR ''3'', 3), (CHR ''4'', 4),
      (CHR ''5'', 5), (CHR ''6'', 6), (CHR ''7'', 7), (CHR ''8'', 8), (CHR ''9'', 9),
      (CHR ''a'', 10), (CHR ''b'', 11), (CHR ''c'', 12), (CHR ''d'', 13), (CHR ''e'', 14),
      (CHR ''f'', 15), (CHR ''A'', 10), (CHR ''B'', 11), (CHR ''C'', 12), (CHR ''D'', 13),
      (CHR ''E'', 14), (CHR ''F'', 15)] c"

fun digits_val :: "nat \<Rightarrow> string \<Rightarrow> nat \<Rightarrow> nat option" where
  "digits_val base [] acc = Some acc"
| "digits_val base (c # cs) acc =
     (case digit_val c of
        None \<Rightarrow> None
      | Some d \<Rightarrow> if d < base then digits_val base cs (acc * base + d) else None)"

definition parse_nat :: "nat \<Rightarrow> string \<Rightarrow> nat option" where
  "parse_nat base s = (if s = [] then None else digits_val base s 0)"

definition split_sign :: "string \<Rightarrow> bool \<times> string" where
  "split_sign s =
     (case s of
        [] \<Rightarrow> (False, [])
      | c # cs \<Rightarrow> if c = CHR ''-'' then (True, cs)
                 else if c = CHR ''+'' then (False, cs) else (False, s))"

definition with_sign :: "bool \<Rightarrow> nat \<Rightarrow> int" where
  "with_sign neg n = (if neg then - int n else int n)"

text \<open>\<^verbatim>\<open>int(s)\<close>: an optional sign and decimal digits; \<open>None\<close> is the ValueError.\<close>

definition py_int :: "string \<Rightarrow> int option" where
  "py_int s = (case split_sign s of (neg, ds) \<Rightarrow> map_option (with_sign neg) (parse_nat 10 ds))"

text \<open>\<^verbatim>\<open>int(s, 0)\<close>: the base is read off the prefix; a decimal literal other than zero
  has no leading zero.\<close>

definition py_int0 :: "string \<Rightarrow> int option" where
  "py_int0 s =
     (case split_sign s of (neg, ds) \<Rightarrow> map_option (with_sign neg)
        (if prefix ''0x'' ds \<or> prefix ''0X'' ds then parse_nat 16 (drop 2 ds)
         else if prefix ''0o'' ds \<or> prefix ''0O'' ds then parse_nat 8 (drop 2 ds)
         else if prefix ''0b'' ds \<or> prefix ''0B'' ds then parse_nat 2 (drop 2 ds)
         else if prefix ''0'' ds then (if list_all (\<lambda>c. c = CHR ''0'') ds then Some 0 else None)
         else parse_nat 10 ds))"

subsection \<open>The tables\<close>

definition reg_pos :: "nat list" where
  "reg_pos = [9, 6, 0]"

definition flags :: "char \<rightharpoonup> int" where
  "flags = map_of [(CHR ''n'', push_bit 11 1), (CHR ''z'', push_bit 10 1), (CHR ''p'', push_bit 9 1)]"

definition instruction_table :: "(string \<times> int) list" where
  "instruction_table =
     [(''ADD'', push_bit 12 1),
      (''AND'', push_bit 12 5),
      (''BR'', 0),
      (''GETC'', push_bit 12 15 + 32),
      (''HALT'', push_bit 12 15 + 37),
      (''IN'', push_bit 12 15 + 35),
      (''JMP'', push_bit 12 12),
      (''JMPT'', push_bit 9 96 + 1),
      (''JSR'', push_bit 11 9),
      (''JSRR'', push_bit 9 16),
      (''LD'', push_bit 12 2),
      (''LDI'', push_bit 12 10),
      (''LDR'', push_bit 12 6),
      (''LEA'', push_bit 12 14),
      (''NOT'', push_bit 12 9 + 63),
      (''OUT'', push_bit 12 15 + 33),
      (''PUTS'', push_bit 12 15 + 34),
      (''PUTSP'', push_bit 12 15 + 36),
      (''RET'', 49600),
      (''RTI'', push_bit 12 8),
      (''RTT'', 49601),
      (''ST'', push_bit 12 3),
      (''STI'', push_bit 12 11),
      (''STR'', push_bit 12 7),
      (''TRAP'', push_bit 12 15)]"

definition instruction_info :: "string \<rightharpoonup> int" where
  "instruction_info = map_of instruction_table"

definition immediate :: "string \<rightharpoonup> int" where
  "immediate = map_of
     [(''ADD'', 5), (''AND'', 5), (''BR'', 9), (''GETC'', 0), (''HALT'', 0), (''IN'', 0),
      (''JMP'', 0), (''JMPT'', 0), (''JSR'', 11), (''JSRR'', 0), (''LD'', 9), (''LDI'', 9),
      (''LDR'', 6), (''LEA'', 9), (''NOT'', 9), (''OUT'', 0), (''PUTS'', 0), (''PUTSP'', 0),
      (''RET'', 0), (''RTI'', 0), (''RTT'', 0), (''ST'', 9), (''STI'', 9), (''STR'', 6),
      (''TRAP'', 8), (''UNDEFINED'', 0)]"

definition immediate_mask :: "string \<rightharpoonup> int" where
  "immediate_mask im = map_option (\<lambda>w. push_bit (nat w) 1 - 1) (immediate im)"

definition instructions :: "string set" where
  "instructions = set (map fst instruction_table)"

definition regs :: "string \<rightharpoonup> int" where
  "regs = map_of
     [(''R0'', 0), (''R1'', 1), (''R2'', 2), (''R3'', 3),
      (''R4'', 4), (''R5'', 5), (''R6'', 6), (''R7'', 7)]"

subsection \<open>The assembler's state\<close>

text \<open>A fixup record \<^verbatim>\<open>[pc, mask, bits]\<close>: the address of the word to patch, the mask of
  the field and the width of the signed field.\<close>

type_synonym fixup = "int \<times> int \<times> int"

text \<open>The globals of the module. \<^verbatim>\<open>pc\<close> and \<^verbatim>\<open>orig\<close> are unbound until an
  \<^verbatim>\<open>.ORIG\<close> line is processed: reading them before is a NameError.\<close>

record asm_state =
  memory :: "nat \<Rightarrow> 16 word"
  pc :: "int option"
  orig :: "int option"
  labels :: "string \<rightharpoonup> int"
  label_location :: "(string \<times> fixup list) list"

definition init_state :: asm_state where
  "init_state = \<lparr>memory = (\<lambda>_. 0), pc = None, orig = None, labels = Map.empty,
                 label_location = []\<rparr>"

text \<open>Indexing the array of 65536 items: a negative index counts from the end.\<close>

definition array_index :: "int \<Rightarrow> error + nat" where
  "array_index i =
     (if 0 \<le> i \<and> i < 65536 then Inr (nat i)
      else if - 65536 \<le> i \<and> i < 0 then Inr (nat (i + 65536))
      else Inl IndexError)"

definition array_get :: "(nat \<Rightarrow> 16 word) \<Rightarrow> int \<Rightarrow> error + int" where
  "array_get mem i = (case array_index i of Inl e \<Rightarrow> Inl e | Inr k \<Rightarrow> Inr (uint (mem k)))"

text \<open>Storing an item: the index is checked first, then that the value is an unsigned
  short.\<close>

definition array_set :: "(nat \<Rightarrow> 16 word) \<Rightarrow> int \<Rightarrow> int \<Rightarrow> error + (nat \<Rightarrow> 16 word)" where
  "array_set mem i v =
     (case array_index i of
        Inl e \<Rightarrow> Inl e
      | Inr k \<Rightarrow> if 0 \<le> v \<and> v < 65536 then Inr (mem(k := word_of_int v)) else Inl OverflowError)"

text \<open>\<^verbatim>\<open>memory[pc] = v\<close> on the state.\<close>

definition store_pc :: "int \<Rightarrow> asm_state \<Rightarrow> error + asm_state" where
  "store_pc v st =
     (case pc st of
        None \<Rightarrow> Inl NameError
      | Some p \<Rightarrow> (case array_set (memory st) p v of
                    Inl e \<Rightarrow> Inl e
                  | Inr mem \<Rightarrow> Inr (st\<lparr>memory := mem\<rparr>)))"

definition put_and_show :: "int \<Rightarrow> asm_state \<Rightarrow> error + asm_state" where
  "put_and_show n st = store_pc (if n < 0 then push_bit 16 1 + n else n) st"

definition valid_label :: "string \<Rightarrow> error + bool" where
  "valid_label word =
     (case word of
        [] \<Rightarrow> Inl IndexError
      | c # cs \<Rightarrow>
          let ok = isalpha c \<and> list_all (\<lambda>c. isalpha c \<or> isdigit c \<or> c = CHR ''_'') word
          in if c = CHR ''x''
             then (case cs of
                     [] \<Rightarrow> Inl IndexError
                   | d # _ \<Rightarrow> if isdigit d then Inr False else Inr ok)
             else Inr ok)"

text \<open>\<^verbatim>\<open>get_immediate\<close>: \<open>Inl\<close> is an exception that leaves the function, \<open>Inr None\<close> the
  value \<^verbatim>\<open>None\<close> it returns for a word that is no number.\<close>

definition get_immediate :: "string \<Rightarrow> int \<Rightarrow> error + int option" where
  "get_immediate word msk =
     (if prefix ''x'' word
         \<and> list_all (\<lambda>n. n \<in> set ''-0123456789abcdefgABCDEF'') (drop 1 word)
         \<and> CHR ''-'' \<notin> set (drop 2 word)
      then (case py_int0 (''0'' @ word) of
              None \<Rightarrow> Inl ValueError
            | Some v \<Rightarrow> Inr (Some (v AND msk)))
      else if prefix ''#'' word
      then (case py_int (drop 1 word) of
              None \<Rightarrow> Inl ValueError
            | Some v \<Rightarrow> Inr (Some (v AND msk)))
      else (case py_int word of
              None \<Rightarrow> Inr None
            | Some v \<Rightarrow> Inr (Some (v AND msk))))"

text \<open>\<^verbatim>\<open>in_range\<close>: shifting by a negative count is a ValueError in Python.\<close>

definition in_range :: "int \<Rightarrow> int \<Rightarrow> error + bool" where
  "in_range n bits =
     (if bits - 1 < 0 then Inl ValueError
      else Inr (- push_bit (nat (bits - 1)) 1 \<le> n \<and> n < push_bit (nat (bits - 1)) 1))"

text \<open>Appending a record to \<^verbatim>\<open>label_location[word]\<close>, creating the entry when the
  word has none.\<close>

definition add_fixup :: "string \<Rightarrow> fixup \<Rightarrow> (string \<times> fixup list) list \<Rightarrow> (string \<times> fixup list) list" where
  "add_fixup word f ll =
     (case map_of ll word of
        Some fs \<Rightarrow> AList.update word (fs @ [f]) ll
      | None \<Rightarrow> ll @ [(word, [f])])"

subsection \<open>Sequencing computations that can raise\<close>

definition ebind :: "error + 'a \<Rightarrow> ('a \<Rightarrow> error + 'b) \<Rightarrow> error + 'b" where
  "ebind m f = (case m of Inl e \<Rightarrow> Inl e | Inr x \<Rightarrow> f x)"

text \<open>\<^verbatim>\<open>labels[k] = pc\<close>, \<^verbatim>\<open>pc += n\<close> and the appending of \<^verbatim>\<open>[pc, mask, bits]\<close> to
  \<^verbatim>\<open>label_location[word]\<close>.\<close>

definition define_label :: "string \<Rightarrow> asm_state \<Rightarrow> error + asm_state" where
  "define_label k st =
     (case pc st of
        None \<Rightarrow> Inl NameError
      | Some p \<Rightarrow> Inr (st\<lparr>labels := (labels st)(k \<mapsto> p)\<rparr>))"

definition advance_pc :: "int \<Rightarrow> asm_state \<Rightarrow> error + asm_state" where
  "advance_pc n st =
     (case pc st of
        None \<Rightarrow> Inl NameError
      | Some p \<Rightarrow> Inr (st\<lparr>pc := Some (p + n)\<rparr>))"

definition queue_fixup :: "string \<Rightarrow> int \<Rightarrow> int \<Rightarrow> asm_state \<Rightarrow> error + asm_state" where
  "queue_fixup word msk bits st =
     (case pc st of
        None \<Rightarrow> Inl NameError
      | Some p \<Rightarrow> Inr (st\<lparr>label_location := add_fixup word (p, msk, bits) (label_location st)\<rparr>))"

subsection \<open>The directives\<close>

text \<open>\<^verbatim>\<open>words[words.index(t) + 1]\<close>; \<open>None\<close> is the IndexError.\<close>

fun item_after :: "string \<Rightarrow> string list \<Rightarrow> string option" where
  "item_after t [] = None"
| "item_after t (w # ws) =
     (if w = t then (case ws of [] \<Rightarrow> None | v # _ \<Rightarrow> Some v) else item_after t ws)"

text \<open>The \<^verbatim>\<open>.FILL\<close> branch; \<open>w0\<close> is \<^verbatim>\<open>words[0]\<close>.\<close>

definition process_fill :: "string \<Rightarrow> string list \<Rightarrow> asm_state \<Rightarrow> error + asm_state" where
  "process_fill w0 words st =
     (case item_after ''.FILL'' words of
        None \<Rightarrow> Inl IndexError
      | Some word \<Rightarrow>
          ebind (case py_int word of
                   Some n \<Rightarrow> put_and_show n st
                 | None \<Rightarrow>
                     ebind (get_immediate word 65535) (\<lambda>value.
                       case value of
                         None \<Rightarrow> queue_fixup word 65535 16 st
                       | Some v \<Rightarrow> store_pc v st))
            (\<lambda>st1. ebind (if w0 \<noteq> ''.FILL'' then define_label w0 st1 else Inr st1)
               (advance_pc 1)))"

definition process_orig :: "string list \<Rightarrow> asm_state \<Rightarrow> error + asm_state" where
  "process_orig words st =
     (case words of
        _ # w1 # _ \<Rightarrow>
          (case py_int0 (if prefix ''x'' w1 then ''0'' @ w1 else w1) of
             None \<Rightarrow> Inl ValueError
           | Some a \<Rightarrow> Inr (st\<lparr>pc := Some a, orig := Some a\<rparr>))
      | _ \<Rightarrow> Inl IndexError)"

text \<open>The text of a \<^verbatim>\<open>.STRINGZ\<close>: the piece after the first double quote, with later
  pieces joined back as long as the text ends with a backslash.\<close>

definition stringz_text :: "string \<Rightarrow> string option" where
  "stringz_text line =
     (case split_on (CHR 0x22) line of
        _ # s1 # rest \<Rightarrow>
          Some (fold (\<lambda>st string. if string \<noteq> [] \<and> last string = CHR 0x5C
                                   then string @ [CHR 0x22] @ st
                                   else string) rest s1)
      | _ \<Rightarrow> None)"

text \<open>The decoding loop. In verbose mode \<^verbatim>\<open>print(repr(chr(m)))\<close> follows the store, and
  \<^verbatim>\<open>chr\<close> raises ValueError outside the range of code points.\<close>

fun stringz_loop :: "bool \<Rightarrow> bool \<Rightarrow> string \<Rightarrow> asm_state \<Rightarrow> error + asm_state" where
  "stringz_loop verbose backslash [] st = Inr st"
| "stringz_loop verbose backslash (c # cs) st =
     (if \<not> backslash \<and> c = CHR 0x5C then stringz_loop verbose True cs st
      else
        let m = (if backslash \<and> c \<in> set ''nblr'' then py_ord c - 100 else py_ord c)
        in (case put_and_show m st of
              Inl e \<Rightarrow> Inl e
            | Inr st1 \<Rightarrow>
                if verbose \<and> (m < 0 \<or> 1114111 < m) then Inl ValueError
                else (case advance_pc 1 st1 of
                        Inl e \<Rightarrow> Inl e
                      | Inr st2 \<Rightarrow> stringz_loop verbose False cs st2)))"

definition process_stringz :: "bool \<Rightarrow> string \<Rightarrow> string \<Rightarrow> asm_state \<Rightarrow> error + asm_state" where
  "process_stringz verbose line w0 st =
     ebind (valid_label w0) (\<lambda>ok.
     ebind (case pc st of None \<Rightarrow> Inl NameError
            | Some p \<Rightarrow> Inr (if ok then st\<lparr>labels := (labels st)(w0 \<mapsto> p)\<rparr> else st)) (\<lambda>st1.
     case stringz_text line of
       None \<Rightarrow> Inl IndexError
     | Some string \<Rightarrow>
         ebind (stringz_loop verbose False string st1) (\<lambda>st2.
         ebind (put_and_show 0 st2) (advance_pc 1))))"

definition process_blkw :: "string \<Rightarrow> string list \<Rightarrow> asm_state \<Rightarrow> error + asm_state" where
  "process_blkw w0 words st =
     ebind (define_label w0 st) (\<lambda>st1.
     ebind (get_immediate (last words) 65535) (\<lambda>value.
       case value of
         None \<Rightarrow> Inl ValueError
       | Some v \<Rightarrow> if v \<le> 0 then Inl ValueError else advance_pc v st1))"

subsection \<open>Instruction lines\<close>

definition branch_index :: "string list \<Rightarrow> nat option" where
  "branch_index words =
     (case words of
        [] \<Rightarrow> None
      | w0 # ws \<Rightarrow>
          if prefix ''BR'' w0 then Some 0
          else (case ws of
                  [] \<Rightarrow> None
                | w1 # _ \<Rightarrow> if prefix ''BR'' w1 then Some 1 else None))"

text \<open>The loop \<^verbatim>\<open>for f in ...: fl |= flags[f]\<close>; it runs on letters that were checked to
  be keys of \<open>flags\<close>.\<close>

definition flag_bits :: "string \<Rightarrow> int" where
  "flag_bits s = fold (\<lambda>f fl. fl OR (case flags f of Some b \<Rightarrow> b | None \<Rightarrow> 0)) s 0"

text \<open>Branch normalisation: the words with the branch token replaced by \<^verbatim>\<open>BR\<close>, and the
  local \<^verbatim>\<open>fl\<close>, which stays unbound (\<open>None\<close>) when no token was normalised.\<close>

definition normalize_branch :: "string list \<Rightarrow> string list \<times> int option" where
  "normalize_branch words =
     (case branch_index words of
        None \<Rightarrow> (words, None)
      | Some ind \<Rightarrow>
          let tok = words ! ind
          in if length tok \<le> 5 \<and> list_all (\<lambda>c. flags c \<noteq> None) (lower (drop 2 tok))
             then (words[ind := ''BR''],
                   Some (flag_bits (lower (drop 2 (if tok = ''BR'' then ''BRnzp'' else tok)))))
             else (words, None))"

text \<open>One turn of the operand loop, on the word with its commas stripped. The loop's
  variables are \<^verbatim>\<open>instruction\<close>, \<^verbatim>\<open>r\<close>, \<^verbatim>\<open>rc\<close> and the fixup table.\<close>

type_synonym operand_state = "int \<times> int \<times> nat \<times> (string \<times> fixup list) list"

definition operand_step :: "string \<Rightarrow> int option \<Rightarrow> string \<Rightarrow> operand_state \<Rightarrow> error + operand_state" where
  "operand_step found p word s =
     (case s of (instruction, r, rc, ll) \<Rightarrow>
        (case regs word of
           Some k \<Rightarrow>
             if rc < length reg_pos
             then Inr (instruction, r OR push_bit (reg_pos ! rc) k, rc + 1, ll)
             else Inl IndexError
         | None \<Rightarrow>
             (case immediate_mask found of
                None \<Rightarrow> Inl KeyError
              | Some msk \<Rightarrow>
                  ebind (get_immediate word msk) (\<lambda>value.
                    case value of
                      Some v \<Rightarrow>
                        Inr (if found = ''ADD'' \<or> found = ''AND''
                             then (instruction OR v) OR push_bit 5 1
                             else instruction OR v, r, rc, ll)
                    | None \<Rightarrow>
                        if word \<noteq> found
                        then ebind (valid_label word) (\<lambda>ok.
                               if ok
                               then (case p of
                                       None \<Rightarrow> Inl NameError
                                     | Some a \<Rightarrow>
                                         (case immediate found of
                                            None \<Rightarrow> Inl KeyError
                                          | Some w \<Rightarrow> Inr (instruction, r, rc,
                                                            add_fixup word (a, msk, w) ll)))
                               else Inl ValueError)
                        else Inr (instruction, r, rc, ll)))))"

fun operand_loop :: "string \<Rightarrow> int option \<Rightarrow> string list \<Rightarrow> operand_state \<Rightarrow> error + int \<times> (string \<times> fixup list) list" where
  "operand_loop found p [] s = (case s of (instruction, r, rc, ll) \<Rightarrow> Inr (instruction, ll))"
| "operand_loop found p (word # ws) s =
     (case operand_step found p (rstrip_comma word) s of
        Inl e \<Rightarrow> Inl e
      | Inr (instruction, r, rc, ll) \<Rightarrow>
          if found = ''JMPT'' then Inr (instruction OR r, ll)
          else operand_loop found p ws (instruction OR r, r, rc, ll))"

text \<open>The encoding of the line once its mnemonic \<open>found\<close> is known; \<open>ws\<close> is
  \<^verbatim>\<open>words[1:]\<close>.\<close>

definition encode :: "string \<Rightarrow> int option \<Rightarrow> string list \<Rightarrow> asm_state \<Rightarrow> error + asm_state" where
  "encode found fl ws st =
     (case instruction_info found of
        None \<Rightarrow> Inr st
      | Some base \<Rightarrow>
          ebind (if found = ''BR''
                 then (case fl of None \<Rightarrow> Inl NameError | Some f \<Rightarrow> Inr (base OR f))
                 else Inr base) (\<lambda>instruction.
          ebind (operand_loop found (pc st) ws
                   (instruction, 0, if found = ''JMPT'' then 1 else 0, label_location st))
            (\<lambda>(instruction', ll).
          ebind (put_and_show instruction' (st\<lparr>label_location := ll\<rparr>)) (advance_pc 1))))"

text \<open>The part of \<^verbatim>\<open>process_instruction\<close> after the directives. A line whose words hold
  no mnemonic is answered with a prompt on the console and skipped.\<close>

definition process_code :: "string list \<Rightarrow> asm_state \<Rightarrow> error + asm_state" where
  "process_code words0 st =
     (case normalize_branch words0 of (words, fl) \<Rightarrow>
        (case words of
           [] \<Rightarrow> Inr st
         | w0 # ws \<Rightarrow>
             if w0 \<in> instructions then encode w0 fl ws st
             else
               ebind (valid_label w0) (\<lambda>ok.
               ebind (if ok then define_label w0 st else Inr st) (\<lambda>st1.
                 case ws of
                   [] \<Rightarrow> Inr st1
                 | w1 # _ \<Rightarrow>
                     if w1 \<in> instructions then encode w1 fl ws st1
                     else if length words > 1 then Inr st1
                     else ebind (valid_label w0) (\<lambda>ok'.
                            if ok' then queue_fixup w0 65535 16 st1 else Inl ValueError)))))"

definition process_instruction :: "bool \<Rightarrow> string \<Rightarrow> string list \<Rightarrow> asm_state \<Rightarrow> error + asm_state" where
  "process_instruction verbose line words st =
     (case words of
        [] \<Rightarrow> Inr st
      | w0 # _ \<Rightarrow>
          if prefix '';'' w0 then Inr st
          else if ''.FILL'' \<in> set words then process_fill w0 words st
          else if ''.ORIG'' \<in> set words then process_orig words st
          else if ''.STRINGZ'' \<in> set words then process_stringz verbose line w0 st
          else if ''.BLKW'' \<in> set words then process_blkw w0 words st
          else process_code words st)"

subsection \<open>The passes\<close>

text \<open>The preparation of a source line: the line as \<^verbatim>\<open>process_instruction\<close> sees it in
  the global \<^verbatim>\<open>line\<close>, and its words.\<close>

definition preprocess :: "string \<Rightarrow> string \<times> string list" where
  "preprocess raw =
     (let l1 = (case split_on (CHR '';'') raw of [] \<Rightarrow> [] | x # _ \<Rightarrow> x);
          line = (if CHR 0x22 \<notin> set l1 then replace_comma l1 else l1)
      in (line, py_split line))"

fun assemble_lines :: "bool \<Rightarrow> string list \<Rightarrow> asm_state \<Rightarrow> error + asm_state" where
  "assemble_lines verbose [] st = Inr st"
| "assemble_lines verbose (raw # rest) st =
     (case preprocess raw of (line, words) \<Rightarrow>
        if ''.END'' \<in> set words then Inr st
        else (case process_instruction verbose line words st of
                Inl e \<Rightarrow> Inl e
              | Inr st1 \<Rightarrow> assemble_lines verbose rest st1))"

text \<open>The resolution of one record against the address \<open>target\<close> of its label.\<close>

definition resolve_fixup :: "int \<Rightarrow> fixup \<Rightarrow> (nat \<Rightarrow> 16 word) \<Rightarrow> error + (nat \<Rightarrow> 16 word)" where
  "resolve_fixup target f mem =
     (case f of (ref, msk, bits) \<Rightarrow>
        let current = target - ref - 1
        in ebind (array_get mem ref) (\<lambda>w.
             if w = 0 then array_set mem ref target
             else ebind (in_range current bits) (\<lambda>ok.
                    if \<not> ok then Inl ValueError
                    else array_set mem ref (w OR (msk AND current)))))"

fun resolve_fixups :: "int \<Rightarrow> fixup list \<Rightarrow> (nat \<Rightarrow> 16 word) \<Rightarrow> error + (nat \<Rightarrow> 16 word)" where
  "resolve_fixups target [] mem = Inr mem"
| "resolve_fixups target (f # fs) mem =
     (case resolve_fixup target f mem of
        Inl e \<Rightarrow> Inl e
      | Inr mem1 \<Rightarrow> resolve_fixups target fs mem1)"

text \<open>The loop over \<^verbatim>\<open>label_location.items()\<close>. The result holds the labels reported on
  the console as \<^verbatim>\<open>Bad label failure\<close>, in order, and the patched memory.\<close>

fun resolve_items :: "(string \<rightharpoonup> int) \<Rightarrow> (string \<times> fixup list) list \<Rightarrow> (nat \<Rightarrow> 16 word) \<Rightarrow> error + string list \<times> (nat \<Rightarrow> 16 word)" where
  "resolve_items lbls [] mem = Inr ([], mem)"
| "resolve_items lbls ((label, fs) # rest) mem =
     (case lbls label of
        None \<Rightarrow>
          (case resolve_items lbls rest mem of
             Inl e \<Rightarrow> Inl e
           | Inr (bad, mem1) \<Rightarrow> Inr (label # bad, mem1))
      | Some target \<Rightarrow>
          (case resolve_fixups target fs mem of
             Inl e \<Rightarrow> Inl e
           | Inr mem1 \<Rightarrow> resolve_items lbls rest mem1))"

definition resolve :: "asm_state \<Rightarrow> error + string list \<times> asm_state" where
  "resolve st =
     (case resolve_items (labels st) (label_location st) (memory st) of
        Inl e \<Rightarrow> Inl e
      | Inr (bad, mem) \<Rightarrow> Inr (bad, st\<lparr>memory := mem\<rparr>))"

subsection \<open>The output\<close>

text \<open>The three files: the symbol table written to \<^verbatim>\<open>.sym\<close>, the numbers printed in
  binary to \<^verbatim>\<open>.bin\<close>, one a line, and the array items handed to \<^verbatim>\<open>tofile\<close> for
  \<^verbatim>\<open>.obj\<close>. The layout of the text and the host's order of the two bytes of an item are
  not modelled.\<close>

record artifacts =
  sym_file :: "string \<rightharpoonup> int"
  bin_file :: "int list"
  obj_file :: "16 word list"

text \<open>\<^verbatim>\<open>array.byteswap\<close> on one item.\<close>

definition byteswap :: "16 word \<Rightarrow> 16 word" where
  "byteswap w = push_bit 8 w OR drop_bit 8 w"

text \<open>A slice \<^verbatim>\<open>memory[a:b]\<close> of the array of 65536 items.\<close>

definition slice_index :: "int \<Rightarrow> nat" where
  "slice_index i = (if i < 0 then nat (max (i + 65536) 0) else nat (min i 65536))"

definition array_slice :: "(nat \<Rightarrow> 16 word) \<Rightarrow> int \<Rightarrow> int \<Rightarrow> 16 word list" where
  "array_slice mem a b = map mem [slice_index a ..< slice_index b]"

text \<open>\<^verbatim>\<open>memory[m] for m in ...\<close>\<close>

fun read_items :: "(nat \<Rightarrow> 16 word) \<Rightarrow> int list \<Rightarrow> error + int list" where
  "read_items mem [] = Inr []"
| "read_items mem (m # ms) =
     (case array_get mem m of
        Inl e \<Rightarrow> Inl e
      | Inr v \<Rightarrow> (case read_items mem ms of Inl e \<Rightarrow> Inl e | Inr vs \<Rightarrow> Inr (v # vs)))"

definition emit :: "asm_state \<Rightarrow> error + artifacts \<times> asm_state" where
  "emit st =
     (case orig st of
        None \<Rightarrow> Inl NameError
      | Some og \<Rightarrow>
          (case pc st of
             None \<Rightarrow> Inl NameError
           | Some p \<Rightarrow>
               ebind (read_items (memory st) [og..p - 1]) (\<lambda>ws.
               ebind (array_set (memory st) p og) (\<lambda>mem1.
                 let swapped = (\<lambda>i. byteswap (mem1 i))
                 in Inr (\<lparr>sym_file = labels st,
                          bin_file = og # ws,
                          obj_file = array_slice swapped p (p + 1) @ array_slice swapped og p\<rparr>,
                         st\<lparr>memory := (\<lambda>i. byteswap (swapped i))\<rparr>)))))"

text \<open>The whole run on the lines of the source text: encoding, resolution, output. The
  result holds the labels reported as bad, the files and the final state.\<close>

definition main :: "bool \<Rightarrow> string list \<Rightarrow> error + string list \<times> artifacts \<times> asm_state" where
  "main verbose code =
     ebind (assemble_lines verbose code init_state) (\<lambda>st.
     ebind (resolve st) (\<lambda>(bad, st1).
     ebind (emit st1) (\<lambda>(files, st2). Inr (bad, files, st2))))"

section \<open>Properties\<close>

subsection \<open>Evaluation of the definitions\<close>

lemmas asm_defs = isdigit_def isalpha_def isspace_def lower_char_def lower_def py_ord_def
  py_split_def replace_comma_def rstrip_comma_def digit_val_def parse_nat_def split_sign_def
  with_sign_def py_int_def py_int0_def reg_pos_def flags_def instruction_table_def
  instruction_info_def immediate_def immediate_mask_def instructions_def regs_def
  init_state_def array_index_def array_get_def array_set_def store_pc_def put_and_show_def
  valid_label_def get_immediate_def in_range_def add_fixup_def ebind_def define_label_def
  advance_pc_def queue_fixup_def process_fill_def process_orig_def stringz_text_def
  process_stringz_def process_blkw_def branch_index_def flag_bits_def normalize_branch_def
  operand_step_def encode_def process_code_def process_instruction_def preprocess_def
  resolve_fixup_def resolve_def Let_def

lemma byteswap_byteswap: "byteswap (byteswap w) = w"
  unfolding byteswap_def
  by (rule bit_word_eqI) (auto simp add: bit_simps)

lemma uint_wi16: "0 \<le> x \<Longrightarrow> x < 65536 \<Longrightarrow> uint (word_of_int x :: 16 word) = x"
  by (simp add: uint_word_of_int_eq take_bit_int_eq_self)

subsection \<open>Resolution of the fixup records\<close>

lemma or_fits:
  fixes w :: "16 word"
  assumes "0 \<le> msk" and "msk < 65536"
  shows "0 \<le> uint w OR (msk AND c)" and "uint w OR (msk AND c) < 65536"
proof -
  have a: "0 \<le> msk AND c" using assms by simp
  have b: "msk AND c \<le> msk" using assms by (simp add: AND_upper1)
  have u: "uint w < 2 ^ 16" using uint_bounded[of w] by simp
  show "0 \<le> uint w OR (msk AND c)" using a by simp
  have "uint w OR (msk AND c) < 2 ^ 16"
    by (rule OR_upper) (use a b u assms in auto)
  then show "uint w OR (msk AND c) < 65536" by simp
qed

lemma uint_or_word: "word_of_int (uint (w :: 16 word) OR x) = w OR word_of_int x"
  by (simp flip: word_wi_log_defs)

text \<open>One record whose slot holds a word other than 0.\<close>

lemma resolve_fixup_nonzero:
  assumes "array_index ref = Inr k" and "mem k \<noteq> 0" and "0 \<le> msk" and "msk < 65536"
  shows "resolve_fixup target (ref, msk, bits) mem =
     (if 1 \<le> bits \<and> - (2 ^ nat (bits - 1)) \<le> target - ref - 1
           \<and> target - ref - 1 < 2 ^ nat (bits - 1)
      then Inr (mem(k := mem k OR word_of_int (msk AND (target - ref - 1))))
      else Inl ValueError)"
  using assms or_fits[of msk "mem k" "target - ref - 1"]
  by (auto simp add: resolve_fixup_def array_get_def array_set_def ebind_def in_range_def
        Let_def uint_or_word uint_0_iff)

text \<open>One record whose slot holds the word 0.\<close>

lemma resolve_fixup_zero:
  assumes "array_index ref = Inr k" and "mem k = 0"
  shows "resolve_fixup target (ref, msk, bits) mem =
     (if 0 \<le> target \<and> target < 65536 then Inr (mem(k := word_of_int target))
      else Inl OverflowError)"
  using assms by (auto simp add: resolve_fixup_def array_get_def array_set_def ebind_def)

text \<open>The two loops of the resolver run over their lists from left to right.\<close>

lemma resolve_fixups_append:
  "resolve_fixups target (fs1 @ fs2) mem =
     (case resolve_fixups target fs1 mem of
        Inl e \<Rightarrow> Inl e
      | Inr mem1 \<Rightarrow> resolve_fixups target fs2 mem1)"
  by (induction fs1 arbitrary: mem) (auto split: sum.splits)

lemma resolve_items_append:
  "resolve_items lbls (xs @ ys) mem =
     (case resolve_items lbls xs mem of
        Inl e \<Rightarrow> Inl e
      | Inr (bad1, mem1) \<Rightarrow>
          (case resolve_items lbls ys mem1 of
             Inl e \<Rightarrow> Inl e
           | Inr (bad2, mem2) \<Rightarrow> Inr (bad1 @ bad2, mem2)))"
proof (induction xs arbitrary: mem)
  case Nil
  then show ?case by (simp split: sum.splits prod.splits)
next
  case (Cons a xs)
  obtain label fs where a: "a = (label, fs)" by (cases a)
  show ?case
  proof (cases "lbls label")
    case None
    then show ?thesis using Cons[of mem] a by (simp split: sum.splits prod.splits)
  next
    case (Some target)
    then show ?thesis using Cons a by (simp split: sum.splits)
  qed
qed

text \<open>The resolver at one record \<open>f\<close> of a defined label: \<open>mem1\<close> is the memory it has
  made of the records in front of \<open>f\<close>, and the record is resolved on \<open>mem1\<close>.\<close>

lemma resolve_items_record:
  assumes "lbls label = Some target"
    and "resolve_items lbls (pre @ [(label, fs1)]) mem = Inr (bad1, mem1)"
  shows "resolve_items lbls (pre @ (label, fs1 @ f # fs2) # post) mem =
     (case resolve_fixup target f mem1 of
        Inl e \<Rightarrow> Inl e
      | Inr mem2 \<Rightarrow>
          (case resolve_items lbls ((label, fs2) # post) mem2 of
             Inl e \<Rightarrow> Inl e
           | Inr (bad2, mem3) \<Rightarrow> Inr (bad1 @ bad2, mem3)))"
proof -
  obtain bad0 mem0 where p: "resolve_items lbls pre mem = Inr (bad0, mem0)"
    and f: "resolve_fixups target fs1 mem0 = Inr mem1" and b: "bad1 = bad0"
    using assms by (auto simp add: resolve_items_append split: sum.splits prod.splits)
  show ?thesis
    using assms(1) p f b
    by (simp add: resolve_items_append[of lbls pre] resolve_fixups_append
          split: sum.splits prod.splits)
qed

text \<open>The masks that the encoder queues are those of the table, and \<open>0xFFFF\<close> for
  \<^verbatim>\<open>.FILL\<close>: all of 16 bits.\<close>

lemma immediate_mask_bounds:
  assumes "immediate_mask M = Some m"
  shows "0 \<le> m \<and> m < 65536"
proof -
  have "m \<in> {31, 511, 0, 2047, 63, 255}"
    using assms by (auto simp add: immediate_mask_def immediate_def split: if_splits)
  then show ?thesis by auto
qed

text \<open>
  C1. The resolver \<^verbatim>\<open>resolve\<close> goes through the fixup table in its order, and
  through the records of each label in their order. Take any record \<open>(ref, msk, bits)\<close>
  of the table, of a label with the address \<open>target\<close>: the table is
  \<open>pre @ (label, fs1 @ (ref, msk, bits) # fs2) # post\<close>. Let \<open>mem1\<close> be the memory
  at the moment the resolver comes to the record, that is what it has made of
  the records in front of it, and let the slot \<open>k\<close> of the record hold a word other
  than 0 there (the mask being one of 16 bits, as all masks of the encoder are). With
  \<open>offset = target - ref - 1\<close>: if \<open>-2^(bits-1) \<le> offset < 2^(bits-1)\<close>, the resolver
  ORs \<open>msk AND offset\<close> into the word of the slot and goes on with the records that
  follow; in every other case the whole resolution raises ValueError, and nothing is
  truncated. The bound \<open>2^(bits-1)\<close> is the source's \<^verbatim>\<open>1 << (bits - 1)\<close>, which exists
  for a width of at least 1; for a width below 1 the shift itself raises ValueError,
  whatever the offset.
\<close>

theorem relative_fixup:
  assumes "label_location st = pre @ (label, fs1 @ (ref, msk, bits) # fs2) # post"
    and "labels st label = Some target"
    and "resolve_items (labels st) (pre @ [(label, fs1)]) (memory st) = Inr (bad1, mem1)"
    and "array_index ref = Inr k" and "mem1 k \<noteq> 0" and "0 \<le> msk" and "msk < 65536"
  shows "resolve st =
     (if 1 \<le> bits \<and> - (2 ^ nat (bits - 1)) \<le> target - ref - 1
           \<and> target - ref - 1 < 2 ^ nat (bits - 1)
      then (case resolve_items (labels st) ((label, fs2) # post)
                   (mem1(k := mem1 k OR word_of_int (msk AND (target - ref - 1)))) of
              Inl e \<Rightarrow> Inl e
            | Inr (bad2, mem2) \<Rightarrow> Inr (bad1 @ bad2, st\<lparr>memory := mem2\<rparr>))
      else Inl ValueError)"
  unfolding resolve_def assms(1)
    resolve_items_record[OF assms(2,3)]
    resolve_fixup_nonzero[of ref k mem1 msk target bits, OF assms(4-7)]
  by (simp split: sum.splits prod.splits)

text \<open>The theorem at the second \<^verbatim>\<open>LD\<close> of a program with the words \<open>0x2400\<close> at
  \<open>0x3000\<close> and \<open>0x2600\<close> at \<open>0x3001\<close>, both naming the label \<^verbatim>\<open>HELLO\<close> at
  \<open>0x3005\<close>, after a \<^verbatim>\<open>.FILL A\<close> at \<open>0x3002\<close>: the record \<open>(0x3001, 0x1FF, 9)\<close>
  is reached with the first word patched, its offset is 3, and the resolver ends with
  \<open>0x2603\<close> in its slot.\<close>

theorem relative_fixup_witness:
  "resolve \<lparr>memory = (\<lambda>_. 0)(12288 := 9216, 12289 := 9728), pc = Some 12294,
            orig = Some 12288, labels = [''A'' \<mapsto> 12291, ''HELLO'' \<mapsto> 12293],
            label_location = [(''A'', [(12290, 65535, 16)]),
                              (''HELLO'', [(12288, 511, 9), (12289, 511, 9)])]\<rparr>
     = Inr ([], \<lparr>memory = (\<lambda>_. 0)(12288 := 9220, 12289 := 9731, 12290 := 12291),
                 pc = Some 12294, orig = Some 12288,
                 labels = [''A'' \<mapsto> 12291, ''HELLO'' \<mapsto> 12293],
                 label_location = [(''A'', [(12290, 65535, 16)]),
                                   (''HELLO'', [(12288, 511, 9), (12289, 511, 9)])]\<rparr>)"
proof -
  let ?st = "\<lparr>memory = (\<lambda>_. 0 :: 16 word)(12288 := 9216, 12289 := 9728), pc = Some 12294,
            orig = Some 12288, labels = [''A'' \<mapsto> 12291, ''HELLO'' \<mapsto> 12293],
            label_location = [(''A'', [(12290, 65535, 16)]),
                              (''HELLO'', [(12288, 511, 9), (12289, 511, 9)])]\<rparr>"
  let ?mem1 = "(\<lambda>_ :: nat. 0 :: 16 word)(12288 := 9220, 12289 := 9728, 12290 := 12291)"
  have 1: "label_location ?st
             = [(''A'', [(12290, 65535, 16)])] @ (''HELLO'', [(12288, 511, 9)] @ (12289, 511, 9) # []) # []"
    by simp
  have 2: "labels ?st ''HELLO'' = Some 12293" by simp
  have 3: "resolve_items (labels ?st) ([(''A'', [(12290, 65535, 16)])] @ [(''HELLO'', [(12288, 511, 9)])])
             (memory ?st) = Inr ([], ?mem1)"
    by (simp add: resolve_fixup_def array_get_def array_set_def array_index_def ebind_def
          in_range_def Let_def fun_upd_twist)
  have 4: "array_index 12289 = Inr 12289" by (simp add: array_index_def)
  have 5: "?mem1 12289 \<noteq> 0" by simp
  show ?thesis
    using relative_fixup[OF 1 2 3 4 5]
    by (simp add: fun_upd_twist)
qed

text \<open>
  C2, as the code has it. In the same setting, let the slot \<open>k\<close> of the record hold the
  word 0 when the resolver comes to it. If the address \<open>target\<close> of the label is a
  16-bit value, from 0 to \<open>0xFFFF\<close>, the resolver stores \<open>target\<close> itself in the slot,
  whatever the mask and the width of the record, and goes on; no offset enters the
  result. If the address is outside that range the store raises OverflowError and the
  resolution ends there.
\<close>

theorem absolute_fill:
  assumes "label_location st = pre @ (label, fs1 @ (ref, msk, bits) # fs2) # post"
    and "labels st label = Some target"
    and "resolve_items (labels st) (pre @ [(label, fs1)]) (memory st) = Inr (bad1, mem1)"
    and "array_index ref = Inr k" and "mem1 k = 0"
  shows "resolve st =
     (if 0 \<le> target \<and> target < 65536
      then (case resolve_items (labels st) ((label, fs2) # post)
                   (mem1(k := word_of_int target)) of
              Inl e \<Rightarrow> Inl e
            | Inr (bad2, mem2) \<Rightarrow> Inr (bad1 @ bad2, st\<lparr>memory := mem2\<rparr>))
      else Inl OverflowError)"
  unfolding resolve_def assms(1)
    resolve_items_record[OF assms(2,3)]
    resolve_fixup_zero[of ref k mem1 target msk bits, OF assms(4,5)]
  by (simp split: sum.splits prod.splits)

text \<open>The theorem at the \<^verbatim>\<open>.FILL HELLO\<close> at \<open>0x3001\<close> of a program whose word at
  \<open>0x3000\<close> is \<^verbatim>\<open>LD R2, HELLO\<close>, with the label at \<open>0x3005\<close>: the offset of the
  record would be 3, and the word stored is \<open>0x3005\<close>.\<close>

theorem absolute_fill_witness:
  "resolve \<lparr>memory = (\<lambda>_. 0)(12288 := 9216), pc = Some 12294,
            orig = Some 12288, labels = [''HELLO'' \<mapsto> 12293],
            label_location = [(''HELLO'', [(12288, 511, 9), (12289, 65535, 16)])]\<rparr>
     = Inr ([], \<lparr>memory = (\<lambda>_. 0)(12288 := 9220, 12289 := 12293),
                 pc = Some 12294, orig = Some 12288, labels = [''HELLO'' \<mapsto> 12293],
                 label_location = [(''HELLO'', [(12288, 511, 9), (12289, 65535, 16)])]\<rparr>)"
proof -
  let ?st = "\<lparr>memory = (\<lambda>_. 0 :: 16 word)(12288 := 9216), pc = Some 12294,
            orig = Some 12288, labels = [''HELLO'' \<mapsto> 12293],
            label_location = [(''HELLO'', [(12288, 511, 9), (12289, 65535, 16)])]\<rparr>"
  let ?mem1 = "(\<lambda>_ :: nat. 0 :: 16 word)(12288 := 9220)"
  have 1: "label_location ?st
             = [] @ (''HELLO'', [(12288, 511, 9)] @ (12289, 65535, 16) # []) # []"
    by simp
  have 2: "labels ?st ''HELLO'' = Some 12293" by simp
  have 3: "resolve_items (labels ?st) ([] @ [(''HELLO'', [(12288, 511, 9)])])
             (memory ?st) = Inr ([], ?mem1)"
    by (simp add: resolve_fixup_def array_get_def array_set_def array_index_def ebind_def
          in_range_def Let_def)
  have 4: "array_index 12289 = Inr 12289" by (simp add: array_index_def)
  have 5: "?mem1 12289 = 0" by simp
  show ?thesis
    using absolute_fill[OF 1 2 3 4 5]
    by simp
qed

text \<open>The claim C2 as it is written fails when the label lies past \<open>0xFFFF\<close>, where
  a \<^verbatim>\<open>.BLKW\<close> can move the location counter: the label \<^verbatim>\<open>L\<close> below is defined, at
  65621, the slot \<open>0xFFF0\<close> of its record holds 0, and the resolver raises OverflowError
  instead of storing an address, so that the run ends without output.\<close>

theorem absolute_fill_counterexample:
  "assemble_lines False
        [''.ORIG xFFF0'', ''P .FILL L'', ''B .BLKW 100'', ''L .BLKW 1''] init_state
     = Inr \<lparr>memory = (\<lambda>_. 0), pc = Some 65622, orig = Some 65520,
            labels = [''P'' \<mapsto> 65520, ''B'' \<mapsto> 65521, ''L'' \<mapsto> 65621],
            label_location = [(''L'', [(65520, 65535, 16)])]\<rparr>
   \<and> resolve \<lparr>memory = (\<lambda>_. 0), pc = Some 65622, orig = Some 65520,
            labels = [''P'' \<mapsto> 65520, ''B'' \<mapsto> 65521, ''L'' \<mapsto> 65621],
            label_location = [(''L'', [(65520, 65535, 16)])]\<rparr> = Inl OverflowError
   \<and> main False
        [''.ORIG xFFF0'', ''P .FILL L'', ''B .BLKW 100'', ''L .BLKW 1''] = Inl OverflowError"
  by (simp add: asm_defs main_def)

subsection \<open>Negative values\<close>

text \<open>
  C10. \<^verbatim>\<open>put_and_show\<close> is the one place where the encoder stores a number that can be
  negative: the literal of a \<^verbatim>\<open>.FILL\<close> that \<^verbatim>\<open>int\<close> accepts, and the code of a character
  of a \<^verbatim>\<open>.STRINGZ\<close>. For a negative \<open>n\<close>, when the location counter names the slot
  \<open>k\<close>: if \<open>n\<close> is at least \<open>-2^16\<close> the word stored is \<open>n + 2^16\<close>, which is
  \<open>n mod 2^16\<close>; below that nothing is stored and the array raises OverflowError. A
  line \<^verbatim>\<open>.FILL word\<close> with a decimal word stores through \<^verbatim>\<open>put_and_show\<close>. So
  \<^verbatim>\<open>.FILL -1\<close> stores \<open>0xFFFF\<close> and the escape of the letter b, of code
  \<open>98 - 100 = -2\<close>, stores \<open>0xFFFE\<close> (in verbose mode the printing of that character
  raises after the store).
\<close>

theorem negative_store:
  assumes "n < 0" and "pc st = Some p" and "array_index p = Inr k"
  shows "put_and_show n st =
           (if - 65536 \<le> n
            then Inr (st\<lparr>memory := (memory st)(k := word_of_int (n + 2 ^ 16))\<rparr>)
            else Inl OverflowError)
         \<and> (- 65536 \<le> n \<longrightarrow> uint (word_of_int (n + 2 ^ 16) :: 16 word) = n + 2 ^ 16
                             \<and> n + 2 ^ 16 = n mod 2 ^ 16)
         \<and> (py_int word = Some n \<longrightarrow>
              process_instruction verbose line [''.FILL'', word] st
                = ebind (put_and_show n st) (advance_pc 1))
         \<and> assemble_lines False
              [''.ORIG x3000'', ''.FILL -1'',
               ''S .STRINGZ '' @ [CHR 0x22, CHR 0x5C] @ ''b'' @ [CHR 0x22]] init_state
             = Inr \<lparr>memory = (\<lambda>_. 0)(12288 := 65535, 12289 := 65534, 12290 := 0),
                    pc = Some 12291, orig = Some 12288, labels = [''S'' \<mapsto> 12289],
                    label_location = []\<rparr>"
proof -
  have "put_and_show n st =
           (if - 65536 \<le> n
            then Inr (st\<lparr>memory := (memory st)(k := word_of_int (n + 2 ^ 16))\<rparr>)
            else Inl OverflowError)"
    using assms by (auto simp add: put_and_show_def store_pc_def array_set_def add.commute)
  moreover have "uint (word_of_int (n + 2 ^ 16) :: 16 word) = n + 2 ^ 16" if "- 65536 \<le> n"
    using uint_wi16[of "n + 2 ^ 16"] assms that by simp
  moreover have "n + 2 ^ 16 = n mod 2 ^ 16" if "- 65536 \<le> n"
  proof -
    have "(n + 2 ^ 16) mod 2 ^ 16 = n + 2 ^ 16"
      using assms that by (intro mod_pos_pos_trivial) auto
    then show ?thesis by simp
  qed
  moreover have "process_instruction verbose line [''.FILL'', word] st
                   = ebind (put_and_show n st) (advance_pc 1)" if "py_int word = Some n"
    using that by (simp add: process_instruction_def process_fill_def ebind_def)
  moreover have "assemble_lines False
              [''.ORIG x3000'', ''.FILL -1'',
               ''S .STRINGZ '' @ [CHR 0x22, CHR 0x5C] @ ''b'' @ [CHR 0x22]] init_state
             = Inr \<lparr>memory = (\<lambda>_. 0)(12288 := 65535, 12289 := 65534, 12290 := 0),
                    pc = Some 12291, orig = Some 12288, labels = [''S'' \<mapsto> 12289],
                    label_location = []\<rparr>"
    by (simp add: asm_defs)
  ultimately show ?thesis by blast
qed

theorem negative_store_witness:
  "put_and_show (- 1) (init_state\<lparr>pc := Some 12288\<rparr>)
     = Inr (init_state\<lparr>pc := Some 12288, memory := (\<lambda>_. 0)(12288 := 65535)\<rparr>)
   \<and> uint (65535 :: 16 word) = - 1 + 2 ^ 16
   \<and> process_instruction False [] [''.FILL'', ''-1''] (init_state\<lparr>pc := Some 12288\<rparr>)
     = Inr (init_state\<lparr>pc := Some 12289, memory := (\<lambda>_. 0)(12288 := 65535)\<rparr>)"
  using negative_store[of "- 1" "init_state\<lparr>pc := Some 12288\<rparr>" 12288 12288 "''-1''" False "[]"]
  by (simp add: init_state_def array_index_def py_int_def split_sign_def parse_nat_def
        digit_val_def with_sign_def ebind_def advance_pc_def)

subsection \<open>Block reservation\<close>

text \<open>
  C7, evaluated. \<^verbatim>\<open>.BLKW 0\<close> raises ValueError, and \<^verbatim>\<open>.BLKW 4\<close> moves the location
  counter by 4 and leaves the memory as it was. \<^verbatim>\<open>.BLKW -3\<close> does not raise:
  \<^verbatim>\<open>get_immediate\<close> masks the count with \<open>0xFFFF\<close> before the test \<^verbatim>\<open>value <= 0\<close>, so
  the count is 65533 and the location counter moves by that much.
\<close>

theorem blkw_counts:
  "assemble_lines verbose [''.ORIG x3000'', ''A .BLKW 0''] init_state = Inl ValueError
   \<and> assemble_lines verbose [''.ORIG x3000'', ''A .BLKW 4''] init_state
       = Inr (init_state\<lparr>pc := Some (12288 + 4), orig := Some 12288,
                          labels := [''A'' \<mapsto> 12288]\<rparr>)
   \<and> assemble_lines verbose [''.ORIG x3000'', ''A .BLKW -3''] init_state
       = Inr (init_state\<lparr>pc := Some (12288 + 65533), orig := Some 12288,
                          labels := [''A'' \<mapsto> 12288]\<rparr>)"
  by (simp add: asm_defs)

subsection \<open>Comments\<close>















subsection \<open>Undefined labels\<close>

lemma resolve_items_defined:
  "resolve_items lbls ll mem =
     (case resolve_items lbls (filter (\<lambda>e. lbls (fst e) \<noteq> None) ll) mem of
        Inl e \<Rightarrow> Inl e
      | Inr (bad, m) \<Rightarrow> Inr (map fst (filter (\<lambda>e. lbls (fst e) = None) ll), m))"
proof (induction ll arbitrary: mem)
  case Nil
  then show ?case by simp
next
  case (Cons a ll)
  obtain label fs where a: "a = (label, fs)" by (cases a)
  show ?case
  proof (cases "lbls label")
    case None
    then show ?thesis using Cons[of mem] a by (simp split: sum.splits prod.splits)
  next
    case (Some target)
    then show ?thesis using Cons a by (simp split: sum.splits)
  qed
qed

text \<open>
  C8, as the code has it. A label of the fixup table that the symbol table lacks is
  reported on the console and its records are skipped; nothing is raised for it. The run
  goes on as if those records were absent: the other records are resolved, the output is
  written, and the result lists the labels reported.
\<close>

theorem undefined_label_reported:
  assumes "assemble_lines verbose code init_state = Inr st"
  shows "main verbose code =
     (case resolve_items (labels st)
             (filter (\<lambda>e. labels st (fst e) \<noteq> None) (label_location st)) (memory st) of
        Inl e \<Rightarrow> Inl e
      | Inr (bad, mem) \<Rightarrow>
          (case emit (st\<lparr>memory := mem\<rparr>) of
             Inl e \<Rightarrow> Inl e
           | Inr (files, st2) \<Rightarrow>
               Inr (map fst (filter (\<lambda>e. labels st (fst e) = None) (label_location st)),
                    files, st2)))"
  using assms resolve_items_defined[of "labels st" "label_location st" "memory st"]
  by (simp add: main_def resolve_def ebind_def split: sum.splits prod.splits)

theorem undefined_label_reported_witness:
  "assemble_lines False [''.ORIG x3000'', ''LEA R0, MSG'', ''HALT''] init_state
     = Inr \<lparr>memory = (\<lambda>_. 0)(12288 := 57344, 12289 := 61477), pc = Some 12290,
            orig = Some 12288, labels = Map.empty,
            label_location = [(''MSG'', [(12288, 511, 9)])]\<rparr>
   \<and> main False [''.ORIG x3000'', ''LEA R0, MSG'', ''HALT'']
     = Inr ([''MSG''],
            \<lparr>sym_file = Map.empty, bin_file = [12288, 57344, 61477],
             obj_file = [48, 224, 9712]\<rparr>,
            \<lparr>memory = (\<lambda>_. 0)(12288 := 57344, 12289 := 61477, 12290 := 12288),
             pc = Some 12290, orig = Some 12288, labels = Map.empty,
             label_location = [(''MSG'', [(12288, 511, 9)])]\<rparr>)"
proof -
  have a: "assemble_lines False [''.ORIG x3000'', ''LEA R0, MSG'', ''HALT''] init_state
     = Inr \<lparr>memory = (\<lambda>_. 0)(12288 := 57344, 12289 := 61477), pc = Some 12290,
            orig = Some 12288, labels = Map.empty,
            label_location = [(''MSG'', [(12288, 511, 9)])]\<rparr>"
    by (simp add: asm_defs)
  show ?thesis
    using a undefined_label_reported[OF a]
    apply (simp add: emit_def ebind_def array_get_def array_set_def array_index_def
        byteswap_byteswap array_slice_def slice_index_def upto.simps)
    apply (simp add: byteswap_def)
    done
qed

text \<open>The claim C8 as it is written fails on a program whose only label is never
  defined: the run ends normally, with the three files written and the word of the
  reference left as it was encoded.\<close>

theorem undefined_label_counterexample:
  "main False [''.ORIG x3000'', ''LD R1, NOWHERE'', ''HALT'', ''.END'']
     = Inr ([''NOWHERE''],
            \<lparr>sym_file = Map.empty, bin_file = [12288, 8704, 61477],
             obj_file = [48, 34, 9712]\<rparr>,
            \<lparr>memory = (\<lambda>_. 0)(12288 := 8704, 12289 := 61477, 12290 := 12288),
             pc = Some 12290, orig = Some 12288, labels = Map.empty,
             label_location = [(''NOWHERE'', [(12288, 511, 9)])]\<rparr>)"
  apply (simp add: asm_defs main_def emit_def byteswap_byteswap array_slice_def
      slice_index_def upto.simps)
  apply (simp add: byteswap_def)
  done

subsection \<open>The effect of the output on the memory\<close>

lemma map_nat_upto: "0 \<le> a \<Longrightarrow> map nat [a..b] = [nat a..<nat (b + 1)]"
proof (induction a b rule: upto.induct)
  case (1 i j)
  show ?case
  proof (cases "i \<le> j")
    case True
    then have a: "[i..j] = i # [i + 1..j]" by (simp add: upto_rec1)
    have "nat i < nat (j + 1)" using True 1(2) by simp
    from upt_conv_Cons[OF this]
    have b: "[nat i..<nat (j + 1)] = nat i # [nat (i + 1)..<nat (j + 1)]"
      using 1(2) by (simp add: Suc_nat_eq_nat_zadd1 add.commute)
    show ?thesis using 1 True a b by simp
  next
    case False
    then show ?thesis by simp
  qed
qed

lemma read_items_ok:
  "\<forall>m \<in> set ms. 0 \<le> m \<and> m < 65536 \<Longrightarrow>
     read_items mem ms = Inr (map (\<lambda>m. uint (mem (nat m))) ms)"
  by (induction ms) (auto simp add: array_get_def array_index_def)

text \<open>
  C9, as the code has it. Let the origin \<open>og\<close> and the location counter \<open>p\<close> be
  addresses with \<open>og \<le> p\<close>. The output stores the origin in the word at the location
  counter and leaves it there; every other word of the memory is the same after the output
  as before, the double byte swap cancelling out. The object file is the origin followed
  by the words of the window, each with its two bytes exchanged; the symbol table and the
  fixup table are not changed.
\<close>

theorem emit_effect:
  assumes "pc st = Some p" and "orig st = Some og" and "0 \<le> og" and "og \<le> p" and "p < 65536"
  shows "emit st =
     Inr (\<lparr>sym_file = labels st,
           bin_file = og # map (\<lambda>m. uint (memory st (nat m))) [og..p - 1],
           obj_file = byteswap (word_of_int og)
                        # map (\<lambda>m. byteswap (memory st (nat m))) [og..p - 1]\<rparr>,
          st\<lparr>memory := (memory st)(nat p := word_of_int og)\<rparr>)"
proof -
  have r: "read_items (memory st) [og..p - 1]
             = Inr (map (\<lambda>m. uint (memory st (nat m))) [og..p - 1])"
    using assms by (intro read_items_ok) auto
  have s: "array_set (memory st) p og = Inr ((memory st)(nat p := word_of_int og))"
    using assms by (simp add: array_set_def array_index_def)
  have i1: "slice_index p = nat p" "slice_index (p + 1) = Suc (nat p)"
    "slice_index og = nat og"
    using assms by (auto simp add: slice_index_def)
  have w: "map (\<lambda>i. byteswap (if i = nat p then word_of_int og else memory st i))
             [nat og..<nat p]
           = map (\<lambda>m. byteswap (memory st (nat m))) [og..p - 1]"
  proof -
    have "map (\<lambda>m. byteswap (memory st (nat m))) [og..p - 1]
          = map (\<lambda>i. byteswap (memory st i)) (map nat [og..p - 1])"
      by (simp add: comp_def)
    also have "\<dots> = map (\<lambda>i. byteswap (memory st i)) [nat og..<nat p]"
      using assms map_nat_upto[of og "p - 1"] by simp
    also have "\<dots> = map (\<lambda>i. byteswap (if i = nat p then word_of_int og else memory st i))
                        [nat og..<nat p]"
      by (rule map_cong) auto
    finally show ?thesis by simp
  qed
  have m: "(\<lambda>i. if i = nat p then word_of_int og else memory st i)
             = (memory st)(nat p := word_of_int og)"
    by (rule ext) simp
  show ?thesis
    using assms r s
    by (simp add: emit_def ebind_def array_slice_def i1 w byteswap_byteswap Let_def m)
qed

theorem emit_effect_witness:
  "emit \<lparr>memory = (\<lambda>_. 0)(16384 := 61477), pc = Some 16385, orig = Some 16384,
         labels = [''L'' \<mapsto> 16384], label_location = []\<rparr>
     = Inr (\<lparr>sym_file = [''L'' \<mapsto> 16384], bin_file = [16384, 61477],
             obj_file = [64, 9712]\<rparr>,
            \<lparr>memory = (\<lambda>_. 0)(16384 := 61477, 16385 := 16384), pc = Some 16385,
             orig = Some 16384, labels = [''L'' \<mapsto> 16384], label_location = []\<rparr>)"
  using emit_effect[of "\<lparr>memory = (\<lambda>_. 0)(16384 := 61477), pc = Some 16385,
         orig = Some 16384, labels = [''L'' \<mapsto> 16384], label_location = []\<rparr>" 16385 16384]
  by (simp add: upto.simps byteswap_def)

text \<open>The claim C9 as it is written fails on the program of the end-to-end example:
  the word after the code, at \<open>0x3002\<close>, is 0 after the encoding and holds the
  origin \<open>0x3000\<close> after the output.\<close>

theorem emit_changes_memory_counterexample:
  "assemble_lines False [''.ORIG x3000'', ''ADD R1, R2, R3'', ''HALT'', ''.END''] init_state
     = Inr \<lparr>memory = (\<lambda>_. 0)(12288 := 4739, 12289 := 61477), pc = Some 12290,
            orig = Some 12288, labels = Map.empty, label_location = []\<rparr>
   \<and> emit \<lparr>memory = (\<lambda>_. 0)(12288 := 4739, 12289 := 61477), pc = Some 12290,
           orig = Some 12288, labels = Map.empty, label_location = []\<rparr>
     = Inr (\<lparr>sym_file = Map.empty, bin_file = [12288, 4739, 61477],
             obj_file = [48, 33554, 9712]\<rparr>,
            \<lparr>memory = (\<lambda>_. 0)(12288 := 4739, 12289 := 61477, 12290 := 12288),
             pc = Some 12290, orig = Some 12288, labels = Map.empty, label_location = []\<rparr>)
   \<and> ((\<lambda>_. 0)(12288 := 4739, 12289 := 61477, 12290 := 12288)) 12290
       \<noteq> (((\<lambda>_. 0)(12288 := 4739, 12289 := 61477)) 12290 :: 16 word)"
  apply (simp add: asm_defs emit_def byteswap_byteswap array_slice_def
      slice_index_def upto.simps)
  apply (simp add: byteswap_def)
  done

subsection \<open>Instructions with three registers\<close>










subsection \<open>Branches\<close>

lemma flag_powers:
  "bit (2048::int) m \<longleftrightarrow> m = 11" "bit (1024::int) m \<longleftrightarrow> m = 10"
  "bit (512::int) m \<longleftrightarrow> m = 9"
proof -
  have "bit ((2::int) ^ 11) m \<longleftrightarrow> m = 11" "bit ((2::int) ^ 10) m \<longleftrightarrow> m = 10"
    "bit ((2::int) ^ 9) m \<longleftrightarrow> m = 9"
    by (auto simp only: bit_exp_iff possible_bit_int)
  then show "bit (2048::int) m \<longleftrightarrow> m = 11" "bit (1024::int) m \<longleftrightarrow> m = 10"
    "bit (512::int) m \<longleftrightarrow> m = 9"
    by simp_all
qed

lemma flag_value_bit:
  "bit (case flags f of Some b \<Rightarrow> b | None \<Rightarrow> (0::int)) m \<longleftrightarrow>
     (m = 11 \<and> f = CHR ''n'') \<or> (m = 10 \<and> f = CHR ''z'') \<or> (m = 9 \<and> f = CHR ''p'')"
  by (auto simp add: flags_def flag_powers)

lemma flag_bits_fold:
  "bit (fold (\<lambda>f fl. fl OR (case flags f of Some b \<Rightarrow> b | None \<Rightarrow> 0)) s acc) m \<longleftrightarrow>
     bit acc m \<or> (m = 11 \<and> CHR ''n'' \<in> set s) \<or> (m = 10 \<and> CHR ''z'' \<in> set s)
       \<or> (m = 9 \<and> CHR ''p'' \<in> set s)"
proof (induction s arbitrary: acc)
  case Nil
  then show ?case by simp
next
  case (Cons a s)
  show ?case
    by (auto simp add: Cons bit_or_iff flag_value_bit)
qed

lemma flag_bits_bit:
  "bit (flag_bits s) m \<longleftrightarrow>
     (m = 11 \<and> CHR ''n'' \<in> set s) \<or> (m = 10 \<and> CHR ''z'' \<in> set s) \<or> (m = 9 \<and> CHR ''p'' \<in> set s)"
  by (simp add: flag_bits_def flag_bits_fold)

lemma flags_ok:
  "list_all (\<lambda>c. flags c \<noteq> None) s \<longleftrightarrow> set s \<subseteq> {CHR ''n'', CHR ''z'', CHR ''p''}"
  by (induction s) (auto simp add: flags_def)

lemma lower_Nil: "lower [] = []"
  by (simp add: lower_def)

lemma normalize_first:
  assumes "length sfx \<le> 3" and "set (lower sfx) \<subseteq> {CHR ''n'', CHR ''z'', CHR ''p''}"
  shows "normalize_branch ((''BR'' @ sfx) # ops)
           = (''BR'' # ops, Some (flag_bits (lower (if sfx = [] then ''nzp'' else sfx))))"
  using assms
  by (simp add: normalize_branch_def branch_index_def flags_ok Let_def lower_Nil
      del: not_None_eq)

lemma normalize_second:
  assumes "length sfx \<le> 3" and "set (lower sfx) \<subseteq> {CHR ''n'', CHR ''z'', CHR ''p''}"
    and "\<not> prefix ''BR'' lab"
  shows "normalize_branch (lab # (''BR'' @ sfx) # ops)
           = (lab # ''BR'' # ops, Some (flag_bits (lower (if sfx = [] then ''nzp'' else sfx))))"
  using assms
  by (simp add: normalize_branch_def branch_index_def flags_ok Let_def lower_Nil
      del: not_None_eq)

lemma get_immediate_masked:
  "get_immediate word msk = Inr (Some v) \<Longrightarrow> \<exists>x. v = x AND msk"
  by (auto simp add: get_immediate_def split: if_splits option.splits)


lemma bit_511: "bit (511::int) n \<longleftrightarrow> n < 9"
proof -
  have "(511::int) = mask 9" by (simp add: mask_eq_exp_minus_1)
  then show ?thesis by (simp only: bit_mask_iff possible_bit_int) simp
qed

lemma br_step:
  assumes "operand_step ''BR'' p word (ins, 0, rc, ll) = Inr (ins2, r2, rc2, ll2)"
    and "regs word = None"
  shows "r2 = 0 \<and> (\<forall>n\<ge>9. bit ins2 n = bit ins n)"
proof (cases "get_immediate word 511")
  case (Inl e)
  then show ?thesis using assms
    by (simp add: operand_step_def immediate_mask_def immediate_def ebind_def)
next
  case (Inr val)
  show ?thesis
  proof (cases val)
    case None
    then show ?thesis using assms Inr
      by (auto simp add: operand_step_def immediate_mask_def immediate_def ebind_def
          split: if_splits sum.splits option.splits)
  next
    case (Some v)
    obtain x where "v = x AND 511" using get_immediate_masked Inr Some by blast
    then have "\<forall>n\<ge>9. \<not> bit v n" by (simp add: bit_and_iff bit_511)
    then show ?thesis using assms Inr Some
      by (auto simp add: operand_step_def immediate_mask_def immediate_def ebind_def
          bit_or_iff)
  qed
qed

lemma br_loop:
  "operand_loop ''BR'' p ops (ins, 0, rc, ll) = Inr (ins', ll') \<Longrightarrow>
   \<forall>w\<in>set ops. regs (rstrip_comma w) = None \<Longrightarrow>
   \<forall>n\<ge>9. bit ins' n = bit ins n"
proof (induction ops arbitrary: ins rc ll)
  case Nil
  then show ?case by simp
next
  case (Cons w ops)
  from Cons.prems(1) obtain ins2 r2 rc2 ll2 where
    st: "operand_step ''BR'' p (rstrip_comma w) (ins, 0, rc, ll) = Inr (ins2, r2, rc2, ll2)"
    and rest: "operand_loop ''BR'' p ops (ins2 OR r2, r2, rc2, ll2) = Inr (ins', ll')"
    by (auto split: sum.splits)
  have r: "r2 = 0" and b: "\<forall>n\<ge>9. bit ins2 n = bit ins n"
    using br_step[OF st] Cons.prems(2) by auto
  have "\<forall>n\<ge>9. bit ins' n = bit ins2 n"
    using Cons.IH[of ins2 rc2 ll2] rest r Cons.prems(2) by simp
  then show ?case using b by simp
qed

lemma put_and_show_word:
  assumes "put_and_show n st = Inr st'" and "pc st = Some p" and "array_index p = Inr k"
  shows "memory st' k = word_of_int n" and "pc st' = Some p"
  using assms
  by (auto simp add: put_and_show_def store_pc_def array_set_def split: if_splits)

lemma br_encode:
  assumes "encode ''BR'' (Some fl) ws st = Inr st'"
    and "\<forall>w\<in>set ws. regs (rstrip_comma w) = None"
    and "pc st = Some p" and "array_index p = Inr k"
  shows "\<forall>n\<ge>9. bit (memory st' k) n \<longleftrightarrow> n < 16 \<and> bit fl n"
proof -
  from assms(1) obtain ins' ll' st2 where
    loop: "operand_loop ''BR'' (pc st) ws (fl, 0, 0, label_location st) = Inr (ins', ll')"
    and put: "put_and_show ins' (st\<lparr>label_location := ll'\<rparr>) = Inr st2"
    and adv: "advance_pc 1 st2 = Inr st'"
    by (auto simp add: encode_def instruction_info_def instruction_table_def ebind_def
        split: sum.splits)
  have m: "memory st2 k = word_of_int ins'"
    using put_and_show_word(1)[OF put] assms(3,4) by simp
  have "memory st' = memory st2"
    using adv by (auto simp add: advance_pc_def split: option.splits)
  then have "bit (memory st' k) n \<longleftrightarrow> n < 16 \<and> bit ins' n" for n
    using m by (simp add: bit_word_of_int_iff)
  then show ?thesis using br_loop[OF loop assms(2)] by simp
qed


lemma lower_nzp: "lower ''nzp'' = ''nzp''"
  by (simp add: lower_def lower_char_def)

lemma cond_bits:
  "bit (flag_bits (lower (if sfx = [] then ''nzp'' else sfx))) m \<longleftrightarrow>
     (m = 11 \<and> (sfx = [] \<or> CHR ''n'' \<in> set (lower sfx)))
     \<or> (m = 10 \<and> (sfx = [] \<or> CHR ''z'' \<in> set (lower sfx)))
     \<or> (m = 9 \<and> (sfx = [] \<or> CHR ''p'' \<in> set (lower sfx)))"
  by (auto simp add: flag_bits_bit lower_nzp lower_Nil)

lemma br_in_instructions: "''BR'' \<in> instructions"
  by (simp add: instructions_def instruction_table_def)

text \<open>
  The lines on which the normalisation works. Take an instruction line whose first word
  is a branch token, \<^verbatim>\<open>BR\<close> followed by at most three letters out of n, z, p in either
  case, or whose first word is a label that does not start with \<^verbatim>\<open>BR\<close> and whose second
  word is such a token; let no operand be a register name. The token \<^verbatim>\<open>BR\<close> alone and
  the token \<^verbatim>\<open>BRnzp\<close> give the same result on every such line. The token is replaced by
  \<^verbatim>\<open>BR\<close> before the mnemonic is looked up. When the line is encoded, bits 11, 10 and 9
  of the word written are set exactly for the letters n, z and p that the suffix holds (all
  three for the empty suffix), and bits 12 to 15, the opcode field, are clear.
\<close>

lemma branch_lines:
  assumes pre: "pre = [] \<or> (\<exists>lab. pre = [lab] \<and> \<not> prefix ''BR'' lab \<and> \<not> prefix '';'' lab
                              \<and> lab \<notin> instructions)"
    and dir: "set (pre @ ops) \<inter> {''.FILL'', ''.ORIG'', ''.STRINGZ'', ''.BLKW''} = {}"
    and sfx: "length sfx \<le> 3" "set (lower sfx) \<subseteq> {CHR ''n'', CHR ''z'', CHR ''p''}"
    and noreg: "\<forall>w\<in>set ops. regs (rstrip_comma w) = None"
    and pc: "pc st = Some p" "array_index p = Inr k"
    and ok: "process_instruction verbose line (pre @ (''BR'' @ sfx) # ops) st = Inr st'"
  shows "process_instruction verbose line (pre @ ''BR'' # ops) st
           = process_instruction verbose line (pre @ ''BRnzp'' # ops) st
       \<and> normalize_branch (pre @ (''BR'' @ sfx) # ops)
           = (pre @ ''BR'' # ops, Some (flag_bits (lower (if sfx = [] then ''nzp'' else sfx))))
       \<and> (bit (memory st' k) 11 \<longleftrightarrow> sfx = [] \<or> CHR ''n'' \<in> set (lower sfx))
       \<and> (bit (memory st' k) 10 \<longleftrightarrow> sfx = [] \<or> CHR ''z'' \<in> set (lower sfx))
       \<and> (bit (memory st' k) 9 \<longleftrightarrow> sfx = [] \<or> CHR ''p'' \<in> set (lower sfx))
       \<and> (\<forall>n\<ge>12. \<not> bit (memory st' k) n)"
proof -
  let ?fl = "flag_bits (lower (if sfx = [] then ''nzp'' else sfx))"
  have n0: "normalize_branch (''BR'' # ops) = (''BR'' # ops, Some (flag_bits ''nzp''))"
    using normalize_first[of "[]" ops] by (simp add: lower_Nil lower_nzp)
  have n3: "normalize_branch (''BRnzp'' # ops) = (''BR'' # ops, Some (flag_bits ''nzp''))"
    using normalize_first[of "''nzp''" ops] by (simp add: lower_nzp)
  have bits: "\<forall>n\<ge>9. bit (memory st' k) n \<longleftrightarrow> n < 16 \<and> bit ?fl n"
    and eq: "process_instruction verbose line (pre @ ''BR'' # ops) st
           = process_instruction verbose line (pre @ ''BRnzp'' # ops) st"
    and norm: "normalize_branch (pre @ (''BR'' @ sfx) # ops) = (pre @ ''BR'' # ops, Some ?fl)"
  proof -
    from pre show "\<forall>n\<ge>9. bit (memory st' k) n \<longleftrightarrow> n < 16 \<and> bit ?fl n"
    proof
      assume e: "pre = []"
      have "process_instruction verbose line ((''BR'' @ sfx) # ops) st
              = encode ''BR'' (Some ?fl) ops st"
        using dir e normalize_first[OF sfx, of ops] br_in_instructions
        by (auto simp add: process_instruction_def process_code_def)
      then show ?thesis using br_encode[OF _ noreg pc] ok e by simp
    next
      assume "\<exists>lab. pre = [lab] \<and> \<not> prefix ''BR'' lab \<and> \<not> prefix '';'' lab \<and> lab \<notin> instructions"
      then obtain lab where e: "pre = [lab]" and l: "\<not> prefix ''BR'' lab" "\<not> prefix '';'' lab"
        "lab \<notin> instructions" by blast
      have "process_instruction verbose line (lab # (''BR'' @ sfx) # ops) st
              = ebind (valid_label lab) (\<lambda>ok.
                ebind (if ok then define_label lab st else Inr st) (\<lambda>st1.
                  encode ''BR'' (Some ?fl) (''BR'' # ops) st1))"
        using dir e l normalize_second[OF sfx l(1), of ops] br_in_instructions
        by (auto simp add: process_instruction_def process_code_def)
      with ok e obtain st1 where
        enc: "encode ''BR'' (Some ?fl) (''BR'' # ops) st1 = Inr st'" and p1: "pc st1 = Some p"
        using pc(1)
        by (auto simp add: ebind_def define_label_def split: sum.splits if_splits)
      have nr: "\<forall>w\<in>set (''BR'' # ops). regs (rstrip_comma w) = None"
        using noreg by (simp add: regs_def rstrip_comma_def)
      show ?thesis using br_encode[OF enc nr p1 pc(2)] .
    qed
  next
    from pre show "process_instruction verbose line (pre @ ''BR'' # ops) st
           = process_instruction verbose line (pre @ ''BRnzp'' # ops) st"
    proof
      assume e: "pre = []"
      show ?thesis using dir e n0 n3
        by (auto simp add: process_instruction_def process_code_def)
    next
      assume "\<exists>lab. pre = [lab] \<and> \<not> prefix ''BR'' lab \<and> \<not> prefix '';'' lab \<and> lab \<notin> instructions"
      then obtain lab where e: "pre = [lab]" and l: "\<not> prefix ''BR'' lab" by blast
      have "normalize_branch (lab # ''BR'' # ops) = (lab # ''BR'' # ops, Some (flag_bits ''nzp''))"
        using normalize_second[of "[]" lab ops] l by (simp add: lower_Nil lower_nzp)
      moreover have "normalize_branch (lab # ''BRnzp'' # ops)
                       = (lab # ''BR'' # ops, Some (flag_bits ''nzp''))"
        using normalize_second[of "''nzp''" lab ops] l by (simp add: lower_nzp)
      ultimately show ?thesis using dir e
        by (auto simp add: process_instruction_def process_code_def)
    qed
  next
    from pre show "normalize_branch (pre @ (''BR'' @ sfx) # ops) = (pre @ ''BR'' # ops, Some ?fl)"
      using normalize_first[OF sfx, of ops] normalize_second[OF sfx, of _ ops] by auto
  qed
  show ?thesis using bits eq norm by (simp add: cond_bits)
qed

lemma branch_lines_example:
  "process_instruction False [] [''LOOP'', ''BRzP'', ''LOOP'']
      (init_state\<lparr>pc := Some 12288, orig := Some 12288\<rparr>)
     = Inr (init_state\<lparr>pc := Some 12289, orig := Some 12288,
                        labels := [''LOOP'' \<mapsto> 12288],
                        memory := (\<lambda>_. 0)(12288 := 0x0600),
                        label_location := [(''LOOP'', [(12288, 511, 9)])]\<rparr>)
   \<and> \<not> bit (0x0600 :: 16 word) 11 \<and> bit (0x0600 :: 16 word) 10 \<and> bit (0x0600 :: 16 word) 9
   \<and> process_instruction False [] [''LOOP'', ''BR'', ''LOOP'']
        (init_state\<lparr>pc := Some 12288, orig := Some 12288\<rparr>)
     = process_instruction False [] [''LOOP'', ''BRnzp'', ''LOOP'']
        (init_state\<lparr>pc := Some 12288, orig := Some 12288\<rparr>)"
proof -
  have ok: "process_instruction False [] ([''LOOP''] @ (''BR'' @ ''zP'') # [''LOOP''])
      (init_state\<lparr>pc := Some 12288, orig := Some 12288\<rparr>)
     = Inr (init_state\<lparr>pc := Some 12289, orig := Some 12288,
                        labels := [''LOOP'' \<mapsto> 12288],
                        memory := (\<lambda>_. 0)(12288 := 0x0600),
                        label_location := [(''LOOP'', [(12288, 511, 9)])]\<rparr>)"
    by (simp add: asm_defs)
  have h1: "[''LOOP''] = [] \<or> (\<exists>lab. [''LOOP''] = [lab] \<and> \<not> prefix ''BR'' lab
              \<and> \<not> prefix '';'' lab \<and> lab \<notin> instructions)"
    by (simp add: instructions_def instruction_table_def)
  have h2: "set ([''LOOP''] @ [''LOOP'']) \<inter> {''.FILL'', ''.ORIG'', ''.STRINGZ'', ''.BLKW''} = {}"
    by simp
  have h3: "length ''zP'' \<le> 3" "set (lower ''zP'') \<subseteq> {CHR ''n'', CHR ''z'', CHR ''p''}"
    by (simp_all add: lower_def lower_char_def)
  have h4: "\<forall>w\<in>set [''LOOP'']. regs (rstrip_comma w) = None"
    by (simp add: regs_def rstrip_comma_def)
  have h5: "pc (init_state\<lparr>pc := Some 12288, orig := Some 12288\<rparr>) = Some 12288"
    "array_index 12288 = Inr 12288"
    by (simp_all add: array_index_def)
  show ?thesis
    using ok branch_lines[OF h1 h2 h3 h4 h5 ok]
    by (simp add: lower_def lower_char_def init_state_def)
qed

text \<open>
  C5, evaluated. On a line whose first word is the branch token, \<^verbatim>\<open>BR\<close> and
  \<^verbatim>\<open>BRnzp\<close> give the same word, \<open>0x0E00\<close>: opcode field 0 and the three condition
  bits. Behind a label that starts with \<^verbatim>\<open>BR\<close>, such as \<^verbatim>\<open>BREAK\<close>, which
  \<^verbatim>\<open>valid_label\<close> accepts, the second word is never looked at by the normalisation:
  the test of \<^verbatim>\<open>words[1]\<close> is the \<^verbatim>\<open>elif\<close> of the test of \<^verbatim>\<open>words[0]\<close>. The line
  \<^verbatim>\<open>BREAK BR LOOP\<close> then finds the mnemonic \<^verbatim>\<open>BR\<close> with the local \<^verbatim>\<open>fl\<close> unbound and
  raises, and the line \<^verbatim>\<open>BREAK BRnzp LOOP\<close> finds no mnemonic and is skipped with only
  its label defined: no word is written for either, and the two lines differ.
\<close>

theorem branch_after_label:
  "assemble_lines False [''.ORIG x3000'', ''BR LOOP''] init_state
     = Inr (init_state\<lparr>pc := Some 12289, orig := Some 12288,
                        memory := (\<lambda>_. 0)(12288 := 0x0E00),
                        label_location := [(''LOOP'', [(12288, 511, 9)])]\<rparr>)
   \<and> assemble_lines False [''.ORIG x3000'', ''BRnzp LOOP''] init_state
     = Inr (init_state\<lparr>pc := Some 12289, orig := Some 12288,
                        memory := (\<lambda>_. 0)(12288 := 0x0E00),
                        label_location := [(''LOOP'', [(12288, 511, 9)])]\<rparr>)
   \<and> valid_label ''BREAK'' = Inr True
   \<and> assemble_lines False [''.ORIG x3000'', ''BREAK BR LOOP''] init_state = Inl NameError
   \<and> assemble_lines False [''.ORIG x3000'', ''BREAK BRnzp LOOP''] init_state
     = Inr (init_state\<lparr>pc := Some 12288, orig := Some 12288,
                        labels := [''BREAK'' \<mapsto> 12288]\<rparr>)"
  by (simp add: asm_defs)

subsection \<open>The symbol table during encoding\<close>

text \<open>The encoding of a line writes the symbol table and never reads it. For each part
  of \<^verbatim>\<open>process_instruction\<close>, running it with the symbol table \<open>L\<close> gives the result
  of running it with the empty table, with the definitions made added to \<open>L\<close>.\<close>

lemma store_pc_labels:
  "store_pc v (st\<lparr>labels := L\<rparr>)
     = (case store_pc v st of Inl e \<Rightarrow> Inl e | Inr s \<Rightarrow> Inr (s\<lparr>labels := L\<rparr>))"
  by (simp add: store_pc_def split: option.splits sum.splits)

lemma put_and_show_labels:
  "put_and_show n (st\<lparr>labels := L\<rparr>)
     = (case put_and_show n st of Inl e \<Rightarrow> Inl e | Inr s \<Rightarrow> Inr (s\<lparr>labels := L\<rparr>))"
  by (simp add: put_and_show_def store_pc_labels)

lemma advance_pc_labels:
  "advance_pc n (st\<lparr>labels := L\<rparr>)
     = (case advance_pc n st of Inl e \<Rightarrow> Inl e | Inr s \<Rightarrow> Inr (s\<lparr>labels := L\<rparr>))"
  by (simp add: advance_pc_def split: option.splits)

lemma queue_fixup_labels:
  "queue_fixup w m b (st\<lparr>labels := L\<rparr>)
     = (case queue_fixup w m b st of Inl e \<Rightarrow> Inl e | Inr s \<Rightarrow> Inr (s\<lparr>labels := L\<rparr>))"
  by (simp add: queue_fixup_def split: option.splits)

lemma stringz_loop_labels:
  "stringz_loop v b cs (st\<lparr>labels := L\<rparr>)
     = (case stringz_loop v b cs st of Inl e \<Rightarrow> Inl e | Inr s \<Rightarrow> Inr (s\<lparr>labels := L\<rparr>))"
proof (induction cs arbitrary: st b)
  case Nil
  then show ?case by simp
next
  case (Cons c cs)
  define m where "m = (if b \<and> c \<in> set ''nblr'' then py_ord c - 100 else py_ord c)"
  have step: "stringz_loop v b (c # cs) s =
     (if \<not> b \<and> c = CHR 0x5C then stringz_loop v True cs s
      else (case put_and_show m s of
              Inl e \<Rightarrow> Inl e
            | Inr st1 \<Rightarrow>
                if v \<and> (m < 0 \<or> 1114111 < m) then Inl ValueError
                else (case advance_pc 1 st1 of
                        Inl e \<Rightarrow> Inl e
                      | Inr st2 \<Rightarrow> stringz_loop v False cs st2)))" for s
    unfolding m_def by (simp add: Let_def)
  show ?case
    unfolding step
    by (auto simp add: Cons put_and_show_labels advance_pc_labels split: sum.splits
        simp del: stringz_loop.simps)
qed

lemma put_and_show_labels2:
  "put_and_show n (st\<lparr>labels := L, label_location := ll\<rparr>)
     = (case put_and_show n (st\<lparr>label_location := ll\<rparr>) of
          Inl e \<Rightarrow> Inl e | Inr s \<Rightarrow> Inr (s\<lparr>labels := L\<rparr>))"
  by (simp add: put_and_show_def store_pc_def split: option.splits sum.splits)

lemma encode_labels:
  "encode found fl ws (st\<lparr>labels := L\<rparr>)
     = (case encode found fl ws st of Inl e \<Rightarrow> Inl e | Inr s \<Rightarrow> Inr (s\<lparr>labels := L\<rparr>))"
  by (auto simp add: encode_def ebind_def put_and_show_labels2 advance_pc_labels
      split: option.splits sum.splits prod.splits)

lemma define_label_labels:
  "define_label k (st\<lparr>labels := L\<rparr>)
     = (case pc st of None \<Rightarrow> Inl NameError | Some p \<Rightarrow> Inr (st\<lparr>labels := L(k \<mapsto> p)\<rparr>))"
  by (simp add: define_label_def split: option.splits)

lemma blind_then:
  assumes "x = (case x0 of Inl e \<Rightarrow> Inl e | Inr s \<Rightarrow> Inr (s\<lparr>labels := L ++ labels s\<rparr>))"
    and G: "\<And>s M. g (s\<lparr>labels := M\<rparr>)
              = (case g (s\<lparr>labels := Map.empty\<rparr>) of
                   Inl e \<Rightarrow> Inl e | Inr t \<Rightarrow> Inr (t\<lparr>labels := M ++ labels t\<rparr>))"
  shows "ebind x g = (case ebind x0 g of
                        Inl e \<Rightarrow> Inl e | Inr s \<Rightarrow> Inr (s\<lparr>labels := L ++ labels s\<rparr>))"
proof (cases x0)
  case (Inl e)
  then show ?thesis using assms(1) by (simp add: ebind_def)
next
  case (Inr s)
  have a: "g (s\<lparr>labels := L ++ labels s\<rparr>)
             = (case g (s\<lparr>labels := Map.empty\<rparr>) of
                  Inl e \<Rightarrow> Inl e | Inr t \<Rightarrow> Inr (t\<lparr>labels := (L ++ labels s) ++ labels t\<rparr>))"
    by (rule G)
  have "g s = g (s\<lparr>labels := labels s\<rparr>)" by simp
  also have "\<dots> = (case g (s\<lparr>labels := Map.empty\<rparr>) of
                  Inl e \<Rightarrow> Inl e | Inr t \<Rightarrow> Inr (t\<lparr>labels := labels s ++ labels t\<rparr>))"
    by (rule G)
  finally have b: "g s = (case g (s\<lparr>labels := Map.empty\<rparr>) of
                  Inl e \<Rightarrow> Inl e | Inr t \<Rightarrow> Inr (t\<lparr>labels := labels s ++ labels t\<rparr>))" .
  show ?thesis
    using assms(1) Inr a b by (simp add: ebind_def split: sum.splits)
qed

lemma blind_frame:
  assumes "\<And>L. f (st\<lparr>labels := L\<rparr>)
             = (case f st of Inl e \<Rightarrow> Inl e | Inr s \<Rightarrow> Inr (s\<lparr>labels := L\<rparr>))"
  shows "f (st\<lparr>labels := L\<rparr>)
           = (case f (st\<lparr>labels := Map.empty\<rparr>) of
                Inl e \<Rightarrow> Inl e | Inr s \<Rightarrow> Inr (s\<lparr>labels := L ++ labels s\<rparr>))"
  by (simp add: assms split: sum.splits)

lemmas put_and_show_blind = blind_frame[of "put_and_show n" for n, OF put_and_show_labels]
lemmas store_pc_blind = blind_frame[of "store_pc v" for v, OF store_pc_labels]
lemmas advance_pc_blind = blind_frame[of "advance_pc n" for n, OF advance_pc_labels]
lemmas queue_fixup_blind = blind_frame[of "queue_fixup w m b" for w m b, OF queue_fixup_labels]
lemmas stringz_loop_blind = blind_frame[of "stringz_loop v b cs" for v b cs, OF stringz_loop_labels]
lemmas encode_blind = blind_frame[of "encode found fl ws" for found fl ws, OF encode_labels]

lemma define_label_blind:
  "define_label k (st\<lparr>labels := L\<rparr>)
     = (case define_label k (st\<lparr>labels := Map.empty\<rparr>) of
          Inl e \<Rightarrow> Inl e | Inr s \<Rightarrow> Inr (s\<lparr>labels := L ++ labels s\<rparr>))"
  by (simp add: define_label_labels split: option.splits)

lemma Inr_blind:
  "Inr (st\<lparr>labels := L\<rparr>)
     = (case Inr (st\<lparr>labels := Map.empty\<rparr>) of
          Inl e \<Rightarrow> Inl (e::error) | Inr s \<Rightarrow> Inr (s\<lparr>labels := L ++ labels s\<rparr>))"
  by simp

lemma fill_tail_blind:
  "ebind (if w0 \<noteq> ''.FILL'' then define_label w0 (s\<lparr>labels := M\<rparr>) else Inr (s\<lparr>labels := M\<rparr>))
       (advance_pc 1)
     = (case ebind (if w0 \<noteq> ''.FILL'' then define_label w0 (s\<lparr>labels := Map.empty\<rparr>)
                    else Inr (s\<lparr>labels := Map.empty\<rparr>)) (advance_pc 1) of
          Inl e \<Rightarrow> Inl e | Inr t \<Rightarrow> Inr (t\<lparr>labels := M ++ labels t\<rparr>))"
proof (rule blind_then)
  show "(if w0 \<noteq> ''.FILL'' then define_label w0 (s\<lparr>labels := M\<rparr>) else Inr (s\<lparr>labels := M\<rparr>))
        = (case (if w0 \<noteq> ''.FILL'' then define_label w0 (s\<lparr>labels := Map.empty\<rparr>)
                 else Inr (s\<lparr>labels := Map.empty\<rparr>)) of
             Inl e \<Rightarrow> Inl e | Inr t \<Rightarrow> Inr (t\<lparr>labels := M ++ labels t\<rparr>))"
    using define_label_blind[where k=w0 and st=s and L=M] by simp
qed (rule advance_pc_blind)

lemma process_fill_blind:
  "process_fill w0 words (st\<lparr>labels := L\<rparr>)
     = (case process_fill w0 words (st\<lparr>labels := Map.empty\<rparr>) of
          Inl e \<Rightarrow> Inl e | Inr s \<Rightarrow> Inr (s\<lparr>labels := L ++ labels s\<rparr>))"
proof (cases "item_after ''.FILL'' words")
  case None
  then show ?thesis by (simp add: process_fill_def)
next
  case (Some word)
  let ?A = "\<lambda>st. (case py_int word of
                   Some n \<Rightarrow> put_and_show n st
                 | None \<Rightarrow>
                     ebind (get_immediate word 65535) (\<lambda>val.
                       case val of
                         None \<Rightarrow> queue_fixup word 65535 16 st
                       | Some v \<Rightarrow> store_pc v st))"
  have A: "?A (st\<lparr>labels := L\<rparr>)
             = (case ?A (st\<lparr>labels := Map.empty\<rparr>) of
                  Inl e \<Rightarrow> Inl e | Inr s \<Rightarrow> Inr (s\<lparr>labels := L ++ labels s\<rparr>))"
  proof (cases "py_int word")
    case (Some n)
    then show ?thesis using put_and_show_blind[where n=n and st=st and L=L] by simp
  next
    case None
    show ?thesis
    proof (cases "get_immediate word 65535")
      case (Inl e)
      then show ?thesis using None by (simp add: ebind_def)
    next
      case (Inr val)
      then show ?thesis
        using None queue_fixup_blind[where w=word and m=65535 and b=16 and st=st and L=L]
          store_pc_blind[where st=st and L=L]
        by (cases val) (simp_all add: ebind_def)
    qed
  qed
  show ?thesis
    unfolding process_fill_def Some option.case
    by (rule blind_then[OF A]) (rule fill_tail_blind)
qed

lemma process_orig_blind:
  "process_orig words (st\<lparr>labels := L\<rparr>)
     = (case process_orig words (st\<lparr>labels := Map.empty\<rparr>) of
          Inl e \<Rightarrow> Inl e | Inr s \<Rightarrow> Inr (s\<lparr>labels := L ++ labels s\<rparr>))"
  by (simp add: process_orig_def split: option.splits list.splits)

lemma process_blkw_blind:
  "process_blkw w0 words (st\<lparr>labels := L\<rparr>)
     = (case process_blkw w0 words (st\<lparr>labels := Map.empty\<rparr>) of
          Inl e \<Rightarrow> Inl e | Inr s \<Rightarrow> Inr (s\<lparr>labels := L ++ labels s\<rparr>))"
  unfolding process_blkw_def
proof (rule blind_then[OF define_label_blind])
  fix s M
  show "ebind (get_immediate (last words) 65535)
          (\<lambda>val. case val of None \<Rightarrow> Inl ValueError
                  | Some v \<Rightarrow> if v \<le> 0 then Inl ValueError else advance_pc v (s\<lparr>labels := M\<rparr>))
        = (case ebind (get_immediate (last words) 65535)
                  (\<lambda>val. case val of None \<Rightarrow> Inl ValueError
                     | Some v \<Rightarrow> if v \<le> 0 then Inl ValueError
                                 else advance_pc v (s\<lparr>labels := Map.empty\<rparr>)) of
             Inl e \<Rightarrow> Inl e | Inr t \<Rightarrow> Inr (t\<lparr>labels := M ++ labels t\<rparr>))"
  proof (cases "get_immediate (last words) 65535")
    case (Inl e)
    then show ?thesis by (simp add: ebind_def)
  next
    case (Inr val)
    then show ?thesis
      using advance_pc_blind[where st=s and L=M] by (cases val) (simp_all add: ebind_def)
  qed
qed

lemma ebind_Inr: "ebind (Inr x) f = f x"
  by (simp add: ebind_def)

lemma ebind_Inl: "ebind (Inl e) f = Inl e"
  by (simp add: ebind_def)

lemma put_advance_blind:
  "ebind (put_and_show n (s\<lparr>labels := M\<rparr>)) (advance_pc 1)
     = (case ebind (put_and_show n (s\<lparr>labels := Map.empty\<rparr>)) (advance_pc 1) of
          Inl e \<Rightarrow> Inl e | Inr t \<Rightarrow> Inr (t\<lparr>labels := M ++ labels t\<rparr>))"
  by (rule blind_then[OF put_and_show_blind]) (rule advance_pc_blind)

lemma process_stringz_blind:
  "process_stringz verbose line w0 (st\<lparr>labels := L\<rparr>)
     = (case process_stringz verbose line w0 (st\<lparr>labels := Map.empty\<rparr>) of
          Inl e \<Rightarrow> Inl e | Inr s \<Rightarrow> Inr (s\<lparr>labels := L ++ labels s\<rparr>))"
proof (cases "valid_label w0")
  case (Inl e)
  then show ?thesis by (simp add: process_stringz_def ebind_def)
next
  case (Inr ok)
  let ?X = "\<lambda>st. (case pc st of None \<Rightarrow> Inl NameError
            | Some p \<Rightarrow> Inr (if ok then st\<lparr>labels := (labels st)(w0 \<mapsto> p)\<rparr> else st))"
  let ?G = "\<lambda>st1. case stringz_text line of
       None \<Rightarrow> Inl IndexError
     | Some string \<Rightarrow>
         ebind (stringz_loop verbose False string st1) (\<lambda>st2.
         ebind (put_and_show 0 st2) (advance_pc 1))"
  have X: "?X (st\<lparr>labels := L\<rparr>)
             = (case ?X (st\<lparr>labels := Map.empty\<rparr>) of
                  Inl e \<Rightarrow> Inl e | Inr s \<Rightarrow> Inr (s\<lparr>labels := L ++ labels s\<rparr>))"
    by (cases "pc st") simp_all
  have G: "?G (s\<lparr>labels := M\<rparr>)
             = (case ?G (s\<lparr>labels := Map.empty\<rparr>) of
                  Inl e \<Rightarrow> Inl e | Inr t \<Rightarrow> Inr (t\<lparr>labels := M ++ labels t\<rparr>))" for s M
  proof (cases "stringz_text line")
    case None
    then show ?thesis by simp
  next
    case (Some string)
    show ?thesis
      unfolding Some option.case
      by (rule blind_then[OF stringz_loop_blind]) (rule put_advance_blind)
  qed
  have eq: "process_stringz verbose line w0 s = ebind (?X s) ?G" for s
    using Inr by (simp add: process_stringz_def ebind_Inr)
  show ?thesis
    unfolding eq by (rule blind_then[OF X]) (rule G)
qed

lemma process_code_blind:
  "process_code words0 (st\<lparr>labels := L\<rparr>)
     = (case process_code words0 (st\<lparr>labels := Map.empty\<rparr>) of
          Inl e \<Rightarrow> Inl e | Inr s \<Rightarrow> Inr (s\<lparr>labels := L ++ labels s\<rparr>))"
proof -
  obtain words fl where n: "normalize_branch words0 = (words, fl)"
    by (cases "normalize_branch words0")
  show ?thesis
  proof (cases words)
    case Nil
    then show ?thesis using n by (simp add: process_code_def)
  next
    case (Cons w0 ws)
    show ?thesis
    proof (cases "w0 \<in> instructions")
      case True
      then show ?thesis
        using n Cons encode_blind[where found=w0 and fl=fl and ws=ws and st=st and L=L]
        by (simp add: process_code_def)
    next
      case False
      show ?thesis
      proof (cases "valid_label w0")
        case (Inl e)
        then show ?thesis using n Cons False by (simp add: process_code_def ebind_def)
      next
        case (Inr ok)
        let ?X = "\<lambda>st. if ok then define_label w0 st else Inr st"
        let ?G = "\<lambda>st1. case ws of
                   [] \<Rightarrow> Inr st1
                 | w1 # _ \<Rightarrow>
                     if w1 \<in> instructions then encode w1 fl ws st1
                     else if length (w0 # ws) > 1 then Inr st1
                     else ebind (valid_label w0) (\<lambda>ok'.
                            if ok' then queue_fixup w0 65535 16 st1 else Inl ValueError)"
        have X: "?X (st\<lparr>labels := L\<rparr>)
             = (case ?X (st\<lparr>labels := Map.empty\<rparr>) of
                  Inl e \<Rightarrow> Inl e | Inr s \<Rightarrow> Inr (s\<lparr>labels := L ++ labels s\<rparr>))"
          using define_label_blind[where k=w0 and st=st and L=L] by simp
        have G: "?G (s\<lparr>labels := M\<rparr>)
             = (case ?G (s\<lparr>labels := Map.empty\<rparr>) of
                  Inl e \<Rightarrow> Inl e | Inr t \<Rightarrow> Inr (t\<lparr>labels := M ++ labels t\<rparr>))" for s M
        proof (cases ws)
          case Nil
          then show ?thesis by simp
        next
          case (Cons w1 ws')
          then show ?thesis
            using encode_blind[where found=w1 and fl=fl and ws=ws and st=s and L=M]
              queue_fixup_blind[where w=w0 and m=65535 and b=16 and st=s and L=M] Inr
            by (simp add: ebind_def)
        qed
        have eq: "process_code words0 s = ebind (?X s) ?G" for s
          using n \<open>words = w0 # ws\<close> False Inr by (simp add: process_code_def ebind_Inr)
        show ?thesis
          unfolding eq by (rule blind_then[OF X]) (rule G)
      qed
    qed
  qed
qed

lemma process_instruction_blind:
  "process_instruction verbose line words (st\<lparr>labels := L\<rparr>)
     = (case process_instruction verbose line words (st\<lparr>labels := Map.empty\<rparr>) of
          Inl e \<Rightarrow> Inl e | Inr s \<Rightarrow> Inr (s\<lparr>labels := L ++ labels s\<rparr>))"
proof (cases words)
  case Nil
  then show ?thesis by (simp add: process_instruction_def)
next
  case (Cons w0 ws)
  show ?thesis
    using Cons process_fill_blind[where ?w0.0=w0 and words=words and st=st and L=L]
      process_orig_blind[where words=words and st=st and L=L]
      process_stringz_blind[where verbose=verbose and line=line and ?w0.0=w0 and st=st and L=L]
      process_blkw_blind[where ?w0.0=w0 and words=words and st=st and L=L]
      process_code_blind[where ?words0.0=words and st=st and L=L]
    by (simp add: process_instruction_def)
qed

text \<open>The encoding pass never reads the symbol table.\<close>

lemma assemble_lines_blind:
  "assemble_lines verbose code (st\<lparr>labels := L\<rparr>)
     = (case assemble_lines verbose code (st\<lparr>labels := Map.empty\<rparr>) of
          Inl e \<Rightarrow> Inl e | Inr s \<Rightarrow> Inr (s\<lparr>labels := L ++ labels s\<rparr>))"
proof (induction code arbitrary: st L)
  case Nil
  then show ?case by simp
next
  case (Cons raw rest)
  obtain line words where p: "preprocess raw = (line, words)" by (cases "preprocess raw")
  show ?case
  proof (cases "''.END'' \<in> set words")
    case True
    then show ?thesis using p by simp
  next
    case False
    have eq: "assemble_lines verbose (raw # rest) s
                = ebind (process_instruction verbose line words s) (assemble_lines verbose rest)" for s
      using p False by (simp add: ebind_def)
    show ?thesis
      unfolding eq by (rule blind_then[OF process_instruction_blind]) (rule Cons.IH)
  qed
qed

text \<open>Hence a label at the address \<open>a\<close> that the lines \<open>code\<close> do not define
  themselves may enter the symbol table before they are encoded, as for a reference
  backwards, or after, as for a reference forwards: the resolver is run on the same
  memory, fixup table and symbol table, and gives the same result.\<close>

lemma forward_backward:
  assumes "assemble_lines verbose code (st\<lparr>labels := Map.empty\<rparr>) = Inr s0"
    and "labels s0 lab = None"
  shows "ebind (assemble_lines verbose code (st\<lparr>labels := (labels st)(lab \<mapsto> a)\<rparr>)) resolve
           = ebind (assemble_lines verbose code st)
               (\<lambda>s. resolve (s\<lparr>labels := (labels s)(lab \<mapsto> a)\<rparr>))"
proof -
  have m: "(labels st)(lab \<mapsto> a) ++ labels s0 = (labels st ++ labels s0)(lab \<mapsto> a)"
    using assms(2) by (auto simp add: map_add_def fun_eq_iff split: option.splits)
  have 1: "assemble_lines verbose code (st\<lparr>labels := (labels st)(lab \<mapsto> a)\<rparr>)
             = Inr (s0\<lparr>labels := (labels st)(lab \<mapsto> a) ++ labels s0\<rparr>)"
    using assemble_lines_blind[where verbose=verbose and code=code and st=st and L="(labels st)(lab \<mapsto> a)"] assms(1) by simp
  have "assemble_lines verbose code st = assemble_lines verbose code (st\<lparr>labels := labels st\<rparr>)"
    by simp
  also have "\<dots> = Inr (s0\<lparr>labels := labels st ++ labels s0\<rparr>)"
    using assemble_lines_blind[where verbose=verbose and code=code and st=st and L="labels st"] assms(1) by simp
  finally have 2: "assemble_lines verbose code st = Inr (s0\<lparr>labels := labels st ++ labels s0\<rparr>)" .
  show ?thesis unfolding 1 2 by (simp add: ebind_def m)
qed

text \<open>An operand that is no register, that \<^verbatim>\<open>get_immediate\<close> answers with
  \<^verbatim>\<open>None\<close>, that is not the mnemonic and that \<^verbatim>\<open>valid_label\<close> accepts adds one record
  to the records of its name.\<close>

lemma add_fixup_one:
  "map_of (add_fixup word f ll) word
     = Some ((case map_of ll word of None \<Rightarrow> [] | Some fs \<Rightarrow> fs) @ [f])"
  "other \<noteq> word \<Longrightarrow> map_of (add_fixup word f ll) other = map_of ll other"
  by (auto simp add: add_fixup_def update_conv' map_add_def split: option.splits)

lemma label_operand_queued:
  assumes "regs word = None" and "immediate found = Some w"
    and "get_immediate word (push_bit (nat w) 1 - 1) = Inr None"
    and "word \<noteq> found" and "valid_label word = Inr True"
  shows "operand_step found (Some a) word (ins, r, rc, ll)
           = Inr (ins, r, rc, add_fixup word (a, push_bit (nat w) 1 - 1, w) ll)"
  using assms by (simp add: operand_step_def immediate_mask_def ebind_def)

text \<open>
  C6, evaluated. The operand \<^verbatim>\<open>bag\<close> of \<^verbatim>\<open>LD R1, bag\<close> adds one record to the fixup
  table, whether the label is defined before the line or after it. The operand
  \<^verbatim>\<open>xbag\<close> adds none: it is no register and no mnemonic, \<^verbatim>\<open>valid_label\<close> accepts it
  and neither \<^verbatim>\<open>int('xbag')\<close> nor \<^verbatim>\<open>int('0xbag', 0)\<close> is a number, but
  \<^verbatim>\<open>get_immediate\<close> takes a word that starts with x and goes on with characters of
  \<^verbatim>\<open>-0123456789abcdefgABCDEF\<close>, the letter g among them, for a hexadecimal number, and
  the ValueError of its conversion ends the run, whether the label is defined before the
  line or after it.
\<close>

theorem label_operand_not_queued:
  "valid_label ''xbag'' = Inr True
   \<and> regs ''xbag'' = None
   \<and> ''xbag'' \<notin> instructions
   \<and> py_int ''xbag'' = None \<and> py_int0 ''0xbag'' = None
   \<and> get_immediate ''xbag'' 511 = Inl ValueError
   \<and> assemble_lines False [''.ORIG x3000'', ''LD R1, xbag'', ''HALT'', ''xbag .FILL 5''] init_state
       = Inl ValueError
   \<and> assemble_lines False [''.ORIG x3000'', ''xbag .FILL 5'', ''LD R1, xbag'', ''HALT''] init_state
       = Inl ValueError
   \<and> assemble_lines False [''.ORIG x3000'', ''LD R1, bag'', ''HALT'', ''bag .FILL 5''] init_state
       = Inr \<lparr>memory = (\<lambda>_. 0)(12288 := 0x2200, 12289 := 0xF025, 12290 := 5),
              pc = Some 12291, orig = Some 12288, labels = [''bag'' \<mapsto> 12290],
              label_location = [(''bag'', [(12288, 511, 9)])]\<rparr>
   \<and> assemble_lines False [''.ORIG x3000'', ''bag .FILL 5'', ''LD R1, bag'', ''HALT''] init_state
       = Inr \<lparr>memory = (\<lambda>_. 0)(12288 := 5, 12289 := 0x2200, 12290 := 0xF025),
              pc = Some 12291, orig = Some 12288, labels = [''bag'' \<mapsto> 12288],
              label_location = [(''bag'', [(12289, 511, 9)])]\<rparr>"
  by (simp add: asm_defs)

end
